theory Spec2Isabelle
  imports Complex_Main "HOL-Library.Multiset"
begin

section \<open>StreetViewScraper: the sampling-and-acquisition pipeline\<close>

text \<open>
  A shallow embedding of \<^verbatim>\<open>StreetViewScraper.py\<close>: the region-keyed geometry cache
  (\<^verbatim>\<open>load_shapefile_for_country\<close>), the point sampler (\<^verbatim>\<open>generate_ll\<close>), the
  metadata validator (\<^verbatim>\<open>MetaParse\<close>), the image fetcher (\<^verbatim>\<open>GetStreetLL\<close>) and the
  acquisition driver (\<^verbatim>\<open>download_images_from_country\<close>).

  Everything outside the program is a field of an environment record: the random number
  generator behind \<^verbatim>\<open>DataFrame.sample\<close>, the file system behind \<^verbatim>\<open>read_dataframe\<close>,
  the imagery provider behind \<^verbatim>\<open>urlopen\<close> and \<^verbatim>\<open>urlretrieve\<close>, and Python's
  rendering of a float as text. Each of them is asked at a time, the number of outside
  calls made so far, so that the same request may be answered differently later. The
  module's mutable globals and the effects on the outside (files written, seconds slept,
  datasets loaded) are fields of a state record which every operation returns updated.
\<close>

subsection \<open>Data model\<close>

text \<open>
  Coordinates are Python floats. The program never computes with them: it copies them,
  tests them for truth and renders them as text. The rendering is a parameter of the
  environment.
\<close>

type_synonym pyfloat = real

text \<open>
  A row of the \<^verbatim>\<open>geometry\<close> column. A vertex is the pair \<open>(x, y)\<close>, longitude first, as
  in \<^verbatim>\<open>road.xy\<close>, whose component 0 holds the x values and component 1 the y values.
  A line string may have no vertex and a multi line string no component; indexing with
  \<^verbatim>\<open>[0]\<close> then raises \<^verbatim>\<open>IndexError\<close>. \<open>OtherGeometry\<close> is a geometry of any
  other type (a point, a polygon). \<open>NoGeometry\<close> is a row whose geometry is missing: the
  column holds \<^verbatim>\<open>None\<close> there, and reading \<^verbatim>\<open>road.geom_type\<close> raises
  \<^verbatim>\<open>AttributeError\<close>.
\<close>

datatype geometry =
    LineString "(pyfloat \<times> pyfloat) list"
  | MultiLineString "(pyfloat \<times> pyfloat) list list"
  | OtherGeometry
  | NoGeometry

type_synonym gdf = "geometry list"

text \<open>A sample point \<open>(lat, lon, heading)\<close>.\<close>

type_synonym point = "pyfloat \<times> pyfloat \<times> int"

text \<open>A decoded JSON document, as \<^verbatim>\<open>json.loads\<close> returns it.\<close>

datatype json =
    JNull
  | JBool bool
  | JInt int
  | JFloat pyfloat
  | JStr string
  | JArr "json list"
  | JObj "(string \<times> json) list"

text \<open>
  What \<^verbatim>\<open>urlopen(MetaUrl)\<close>, \<^verbatim>\<open>response.read()\<close> and \<^verbatim>\<open>json.loads\<close> can give
  together: an exception of the transport, a body that is not JSON, or a document.
\<close>

datatype http_result = TransportError | Malformed | Document json

text \<open>
  What \<^verbatim>\<open>urlretrieve(MyUrl, path)\<close> can do: save the file, raise
  \<^verbatim>\<open>urllib.error.HTTPError\<close> (before the file is opened), or raise any other exception,
  with or without a file left behind at the path.
\<close>

datatype dl_result = Saved | HTTPError | OtherError bool

text \<open>The exceptions that leave the functions modelled here.\<close>

datatype error =
    ValueError string
  | IndexError
  | AttributeError
  | LoadError string

text \<open>The tuple \<^verbatim>\<open>(date, pano_id, lat, lon)\<close> of \<^verbatim>\<open>MetaParse\<close> and the ledger entry
  \<^verbatim>\<open>(date, pano_id, lat, lon, filename)\<close> of \<^verbatim>\<open>GetStreetLL\<close>.\<close>

type_synonym met_data = "json \<times> json \<times> json \<times> json"

type_synonym image_metadata = "json \<times> json \<times> json \<times> json \<times> string"

text \<open>The module's settings: the globals that the menu changes.\<close>

record settings =
  key :: "string option"
  scrape_type :: int
  samples_per_country :: int
  pano :: bool
  num_workers :: int

text \<open>The outside world.\<close>

record env =
  regions_to_countries_dict :: "(string \<times> string list) list"
  read_dataframe :: "nat \<Rightarrow> string \<Rightarrow> string + gdf"
  rnd :: "nat \<Rightarrow> nat"
  urlopen :: "nat \<Rightarrow> string \<Rightarrow> http_result"
  urlretrieve :: "nat \<Rightarrow> string \<Rightarrow> string \<Rightarrow> dl_result"
  str_float :: "pyfloat \<Rightarrow> string"
  str_json :: "json \<Rightarrow> string"

text \<open>
  The mutable state: \<open>clock\<close> counts the outside calls made so far, \<open>gdf_cache\<close> and
  \<open>image_list\<close> are the module's globals of the same names, \<open>files\<close> lists the paths
  written (oldest first, a path twice when it was overwritten), \<open>slept\<close> sums the seconds
  of \<^verbatim>\<open>time.sleep\<close>, and \<open>loads\<close> lists the paths given to \<^verbatim>\<open>read_dataframe\<close>.
\<close>

record state =
  clock :: nat
  gdf_cache :: "string \<rightharpoonup> gdf"
  image_list :: "image_metadata list"
  files :: "string list"
  slept :: nat
  loads :: "string list"

definition tick :: "state \<Rightarrow> state" where
  "tick s = s\<lparr>clock := Suc (clock s)\<rparr>"

subsection \<open>Point sampler: \<^verbatim>\<open>generate_ll\<close>\<close>

text \<open>
  \<^verbatim>\<open>int(a / b)\<close> for a positive \<open>b\<close>: the true quotient, truncated towards zero. Python
  computes the quotient in double precision, which is exact below \<open>2^53\<close>; a larger
  budget exceeds the number of rows any dataset in memory has, and a larger tally the
  number of downloads any run makes.
\<close>

definition int_truediv :: "int \<Rightarrow> int \<Rightarrow> int" where
  "int_truediv a b = (if 0 \<le> a then a div b else - ((- a) div b))"

text \<open>
  \<^verbatim>\<open>gdf.sample(n=n)\<close> for \<open>0 \<le> n \<le> len(gdf)\<close>: \<open>n\<close> rows drawn without replacement.
  Each draw takes one random number and removes the row it selects.
\<close>

definition remove_row :: "nat \<Rightarrow> 'a list \<Rightarrow> 'a list" where
  "remove_row i xs = take i xs @ drop (Suc i) xs"

fun draw_rows :: "(nat \<Rightarrow> nat) \<Rightarrow> nat \<Rightarrow> 'a list \<Rightarrow> nat \<Rightarrow> 'a list" where
  "draw_rows r t xs 0 = []"
| "draw_rows r t xs (Suc n) =
     (if xs = [] then []
      else xs ! (r t mod length xs) # draw_rows r (Suc t) (remove_row (r t mod length xs) xs) n)"

text \<open>\<^verbatim>\<open>gdf.sample(n=n)\<close> as pandas guards it: a negative \<open>n\<close> raises \<^verbatim>\<open>ValueError\<close>.\<close>

definition gdf_sample :: "env \<Rightarrow> gdf \<Rightarrow> int \<Rightarrow> state \<Rightarrow> (error + gdf) \<times> state" where
  "gdf_sample E g n s =
     (if n < 0 then (Inl (ValueError ''A negative number of rows requested. Please provide `n` >= 0.''), s)
      else (Inr (draw_rows (rnd E) (clock s) g (nat n)), s\<lparr>clock := clock s + nat n\<rparr>))"

text \<open>
  The same draws, from the list of the random numbers used: \<open>draw_rows r t xs n\<close> is
  \<open>draw_by\<close> of the numbers \<open>r t, ..., r (t + n - 1)\<close>. A list of choices is valid for
  \<open>L\<close> rows when each choice is below the number of rows that remain, so that it names
  one of them directly.
\<close>

fun draw_by :: "nat list \<Rightarrow> 'a list \<Rightarrow> 'a list" where
  "draw_by [] xs = []"
| "draw_by (c # cs) xs =
     (if xs = [] then []
      else xs ! (c mod length xs) # draw_by cs (remove_row (c mod length xs) xs))"

fun valid_choices :: "nat \<Rightarrow> nat list \<Rightarrow> bool" where
  "valid_choices L [] = True"
| "valid_choices L (c # cs) = (c < L \<and> valid_choices (L - 1) cs)"

definition four_points :: "pyfloat \<Rightarrow> pyfloat \<Rightarrow> point list" where
  "four_points lat lon = [(lat, lon, 2), (lat, lon, 92), (lat, lon, 182), (lat, lon, 272)]"

text \<open>One pass of the loop over the roads: the points it appends, or the exception.\<close>

fun road_points :: "geometry \<Rightarrow> error + point list" where
  "road_points (LineString []) = Inl IndexError"
| "road_points (LineString ((x, y) # vs)) = Inr (four_points y x)"
| "road_points (MultiLineString []) = Inl IndexError"
| "road_points (MultiLineString ([] # ls)) = Inl IndexError"
| "road_points (MultiLineString (((x, y) # vs) # ls)) = Inr (four_points y x)"
| "road_points OtherGeometry = Inr []"
| "road_points NoGeometry = Inl AttributeError"

fun roads_loop :: "geometry list \<Rightarrow> point list \<Rightarrow> error + point list" where
  "roads_loop [] ll_list = Inr ll_list"
| "roads_loop (road # roads) ll_list =
     (case road_points road of
        Inl e \<Rightarrow> Inl e
      | Inr ps \<Rightarrow> roads_loop roads (ll_list @ ps))"

definition generate_ll :: "env \<Rightarrow> gdf \<Rightarrow> int \<Rightarrow> state \<Rightarrow> (error + point list) \<times> state" where
  "generate_ll E g n2d s =
     (let n_roads = int_truediv n2d 2 in
      case (if int (length g) > n_roads then gdf_sample E g n_roads s else (Inr g, s)) of
        (Inl e, s1) \<Rightarrow> (Inl e, s1)
      | (Inr roads, s1) \<Rightarrow> (roads_loop roads [], s1))"

subsection \<open>Geometry cache: \<^verbatim>\<open>load_shapefile_for_country\<close>\<close>

definition region_shp_paths :: "(string \<times> string) list" where
  "region_shp_paths =
     [(''Region 1'', ''./GRIP4/GRIP4_Region1_vector_shp/GRIP4_region1.shp''),
      (''Region 2'', ''./GRIP4/GRIP4_Region2_vector_shp/GRIP4_region2.shp''),
      (''Region 3'', ''./GRIP4/GRIP4_Region3_vector_shp/GRIP4_region3.shp''),
      (''Region 4'', ''./GRIP4/GRIP4_Region4_vector_shp/GRIP4_region4.shp''),
      (''Region 5'', ''./GRIP4/GRIP4_Region5_vector_shp/GRIP4_region5.shp''),
      (''Region 6'', ''./GRIP4/GRIP4_Region6_vector_shp/GRIP4_region6.shp''),
      (''Region 7'', ''./GRIP4/GRIP4_Region7_vector_shp/GRIP4_region7.shp'')]"

text \<open>The two messages of \<^verbatim>\<open>ValueError\<close> that the function raises.\<close>

definition not_found_in_any_region :: "string \<Rightarrow> error" where
  "not_found_in_any_region country = ValueError (country @ '' not found in any region.'')"

definition shapefile_path_not_found :: "string \<Rightarrow> error" where
  "shapefile_path_not_found region = ValueError (''Shapefile path for '' @ region @ '' not found.'')"

text \<open>
  The branch taken for the first region that lists the country: the cached dataset, or
  a load that is cached when it succeeds. \<^verbatim>\<open>if shapefile_path:\<close> is false for a
  missing key (\<^verbatim>\<open>get\<close> gives \<^verbatim>\<open>None\<close>) and for an empty path.
\<close>

definition load_region :: "env \<Rightarrow> string \<Rightarrow> state \<Rightarrow> (error + gdf) \<times> state" where
  "load_region E region s =
     (case gdf_cache s region of
        Some g \<Rightarrow> (Inr g, s)
      | None \<Rightarrow>
          (case map_of region_shp_paths region of
             None \<Rightarrow> (Inl (shapefile_path_not_found region), s)
           | Some shapefile_path \<Rightarrow>
               if shapefile_path = [] then (Inl (shapefile_path_not_found region), s)
               else
                 (case read_dataframe E (clock s) shapefile_path of
                    Inl msg \<Rightarrow>
                      (Inl (LoadError msg),
                       s\<lparr>clock := Suc (clock s), loads := loads s @ [shapefile_path]\<rparr>)
                  | Inr g \<Rightarrow>
                      (Inr g,
                       s\<lparr>clock := Suc (clock s), loads := loads s @ [shapefile_path],
                         gdf_cache := (gdf_cache s)(region \<mapsto> g)\<rparr>))))"

text \<open>The loop over the items of \<^verbatim>\<open>regions_to_countries_dict\<close>, in the dict's order.\<close>

fun regions_loop :: "env \<Rightarrow> string \<Rightarrow> (string \<times> string list) list \<Rightarrow> state \<Rightarrow> (error + gdf) \<times> state" where
  "regions_loop E country [] s = (Inl (not_found_in_any_region country), s)"
| "regions_loop E country ((region, countries) # rest) s =
     (if country \<in> set countries then load_region E region s
      else regions_loop E country rest s)"

definition load_shapefile_for_country :: "env \<Rightarrow> string \<Rightarrow> state \<Rightarrow> (error + gdf) \<times> state" where
  "load_shapefile_for_country E country s =
     regions_loop E country (regions_to_countries_dict E) s"

text \<open>The region of a country: the first item of the index that lists it.\<close>

fun region_of :: "(string \<times> string list) list \<Rightarrow> string \<Rightarrow> string option" where
  "region_of [] country = None"
| "region_of ((region, countries) # rest) country =
     (if country \<in> set countries then Some region else region_of rest country)"

text \<open>A sequence of calls of the cache, one per country, whatever each returns.\<close>

fun resolve_calls :: "env \<Rightarrow> string list \<Rightarrow> state \<Rightarrow> state" where
  "resolve_calls E [] s = s"
| "resolve_calls E (country # cs) s =
     resolve_calls E cs (snd (load_shapefile_for_country E country s))"

subsection \<open>Metadata validator: \<^verbatim>\<open>MetaParse\<close>\<close>

text \<open>
  \<^verbatim>\<open>d[k]\<close> for a string \<open>k\<close> on a decoded document: the value, or \<open>None\<close> where Python
  raises (\<^verbatim>\<open>KeyError\<close> on a dict without the key, \<^verbatim>\<open>TypeError\<close> on anything that is
  not a dict). \<open>JObj\<close> lists the items of a dict, whose keys are distinct.
\<close>

fun subscript :: "json \<Rightarrow> string \<Rightarrow> json option" where
  "subscript (JObj items) k = map_of items k"
| "subscript _ k = None"

text \<open>\<^verbatim>\<open>d.get(k, None)\<close> on a dict.\<close>

definition dict_get :: "json \<Rightarrow> string \<Rightarrow> json" where
  "dict_get d k = (case subscript d k of None \<Rightarrow> JNull | Some v \<Rightarrow> v)"

text \<open>The body of the \<^verbatim>\<open>try\<close> after \<^verbatim>\<open>json.loads\<close>; \<open>None\<close> also where it raises.\<close>

definition parse_document :: "json \<Rightarrow> met_data option" where
  "parse_document jsonData =
     (case subscript jsonData ''status'' of
        None \<Rightarrow> None
      | Some status \<Rightarrow>
          if status = JStr ''OK'' then
            (case subscript jsonData ''pano_id'' of
               None \<Rightarrow> None
             | Some pano_id \<Rightarrow>
                 (case subscript jsonData ''location'' of
                    None \<Rightarrow> None
                  | Some location \<Rightarrow>
                      (case subscript location ''lat'' of
                         None \<Rightarrow> None
                       | Some lat \<Rightarrow>
                           (case subscript location ''lng'' of
                              None \<Rightarrow> None
                            | Some lng \<Rightarrow> Some (dict_get jsonData ''date'', pano_id, lat, lng)))))
          else None)"

definition MetaParse :: "env \<Rightarrow> string \<Rightarrow> state \<Rightarrow> met_data option \<times> state" where
  "MetaParse E MetaUrl s =
     ((case urlopen E (clock s) MetaUrl of
         TransportError \<Rightarrow> None
       | Malformed \<Rightarrow> None
       | Document jsonData \<Rightarrow> parse_document jsonData),
      tick s)"

subsection \<open>Image fetcher: \<^verbatim>\<open>GetStreetLL\<close>\<close>

text \<open>\<^verbatim>\<open>str\<close> of an integer, in decimal.\<close>

fun str_nat :: "nat \<Rightarrow> string" where
  "str_nat n =
     (if n < 10 then [''0123456789'' ! n]
      else str_nat (n div 10) @ [''0123456789'' ! (n mod 10)])"

declare str_nat.simps [simp del]

definition str_int :: "int \<Rightarrow> string" where
  "str_int i = (if i < 0 then CHR ''-'' # str_nat (nat (- i)) else str_nat (nat i))"

text \<open>The global \<^verbatim>\<open>key\<close> inside an f-string: \<^verbatim>\<open>os.getenv\<close> gives \<^verbatim>\<open>None\<close> when unset.\<close>

definition str_key :: "settings \<Rightarrow> string" where
  "str_key G = (case key G of None \<Rightarrow> ''None'' | Some k \<Rightarrow> k)"

definition url_end :: "env \<Rightarrow> settings \<Rightarrow> pyfloat \<Rightarrow> pyfloat \<Rightarrow> int \<Rightarrow> string" where
  "url_end E G Lat Lon Head =
     str_float E Lat @ '','' @ str_float E Lon @ ''&heading='' @ str_int Head @ ''&key='' @ str_key G"

definition url_base :: string where
  "url_base = ''https://maps.googleapis.com/maps/api/streetview''"

definition url_size :: string where
  "url_size = ''?size=640x640&fov=120&location=''"

definition MyUrl_of :: "env \<Rightarrow> settings \<Rightarrow> pyfloat \<Rightarrow> pyfloat \<Rightarrow> int \<Rightarrow> string" where
  "MyUrl_of E G Lat Lon Head = url_base @ url_size @ url_end E G Lat Lon Head"

definition MetaUrl_of :: "env \<Rightarrow> settings \<Rightarrow> pyfloat \<Rightarrow> pyfloat \<Rightarrow> int \<Rightarrow> string" where
  "MetaUrl_of E G Lat Lon Head = url_base @ ''/metadata'' @ url_size @ url_end E G Lat Lon Head"

text \<open>The truth value of a decoded JSON value, as \<^verbatim>\<open>if pano_id:\<close> tests it.\<close>

fun truthy :: "json \<Rightarrow> bool" where
  "truthy JNull = False"
| "truthy (JBool b) = b"
| "truthy (JInt i) = (i \<noteq> 0)"
| "truthy (JFloat x) = (x \<noteq> 0)"
| "truthy (JStr s) = (s \<noteq> [])"
| "truthy (JArr xs) = (xs \<noteq> [])"
| "truthy (JObj items) = (items \<noteq> [])"

text \<open>\<^verbatim>\<open>os.path.join(a, b)\<close> of \<^verbatim>\<open>posixpath\<close>: an absolute \<open>b\<close> replaces \<open>a\<close>.\<close>

definition os_path_join :: "string \<Rightarrow> string \<Rightarrow> string" where
  "os_path_join a b =
     (if b \<noteq> [] \<and> hd b = CHR ''/'' then b
      else if a = [] \<or> last a = CHR ''/'' then a @ b
      else a @ ''/'' @ b)"

definition filename_of :: "env \<Rightarrow> json \<Rightarrow> json \<Rightarrow> int \<Rightarrow> string" where
  "filename_of E lat lon Head = str_json E lat @ ''_'' @ str_json E lon @ ''_'' @ str_int Head @ ''.jpg''"

text \<open>
  The loop \<^verbatim>\<open>for attempt in range(retries)\<close>, on the number of attempts left. An
  attempt without usable metadata falls through to the next one; \<^verbatim>\<open>HTTPError\<close>
  sleeps five seconds before the next one; any other exception returns at once.
\<close>

fun retry_loop :: "env \<Rightarrow> string \<Rightarrow> string \<Rightarrow> int \<Rightarrow> string \<Rightarrow> nat \<Rightarrow> state
    \<Rightarrow> (image_metadata option \<times> int) \<times> state" where
  "retry_loop E MyUrl MetaUrl Head SaveLoc 0 s = ((None, 0), s)"
| "retry_loop E MyUrl MetaUrl Head SaveLoc (Suc n) s =
     (case MetaParse E MetaUrl s of
        (None, s1) \<Rightarrow> retry_loop E MyUrl MetaUrl Head SaveLoc n s1
      | (Some (date, pano_id, lat, lon), s1) \<Rightarrow>
          if truthy pano_id then
            (let filename = filename_of E lat lon Head;
                 path = os_path_join SaveLoc filename
             in case urlretrieve E (clock s1) MyUrl path of
                  Saved \<Rightarrow>
                    ((Some (date, pano_id, lat, lon, filename), 1),
                     s1\<lparr>clock := Suc (clock s1), files := files s1 @ [path]\<rparr>)
                | HTTPError \<Rightarrow>
                    retry_loop E MyUrl MetaUrl Head SaveLoc n
                      (s1\<lparr>clock := Suc (clock s1), slept := slept s1 + 5\<rparr>)
                | OtherError left \<Rightarrow>
                    ((None, 0),
                     s1\<lparr>clock := Suc (clock s1),
                        files := (if left then files s1 @ [path] else files s1)\<rparr>))
          else retry_loop E MyUrl MetaUrl Head SaveLoc n s1)"

text \<open>The default of the parameter \<^verbatim>\<open>retries\<close>.\<close>

definition default_retries :: int where
  "default_retries = 3"

definition GetStreetLL :: "env \<Rightarrow> settings \<Rightarrow> pyfloat \<Rightarrow> pyfloat \<Rightarrow> int \<Rightarrow> string \<Rightarrow> int \<Rightarrow> state
    \<Rightarrow> (image_metadata option \<times> int) \<times> state" where
  "GetStreetLL E G Lat Lon Head SaveLoc retries s =
     retry_loop E (MyUrl_of E G Lat Lon Head) (MetaUrl_of E G Lat Lon Head) Head SaveLoc
       (nat retries) s"

subsection \<open>Acquisition driver: \<^verbatim>\<open>download_images_from_country\<close>\<close>

text \<open>
  One round of the worker pool. The pool runs the fetches of a round concurrently and
  the driver tallies them as they complete; the model runs them one after the other in
  the order of submission, each with the default number of attempts, and tallies each
  result at once.
\<close>

fun dispatch :: "env \<Rightarrow> settings \<Rightarrow> string \<Rightarrow> point list \<Rightarrow> int \<Rightarrow> state \<Rightarrow> int \<times> state" where
  "dispatch E G save_dir [] images_downloaded s = (images_downloaded, s)"
| "dispatch E G save_dir ((lat, lon, head) # data_list) images_downloaded s =
     (case GetStreetLL E G lat lon head save_dir default_retries s of
        ((image_metadata, n), s1) \<Rightarrow>
          dispatch E G save_dir data_list (images_downloaded + n)
            (case image_metadata of
               None \<Rightarrow> s1
             | Some m \<Rightarrow> s1\<lparr>image_list := image_list s1 @ [m]\<rparr>))"

text \<open>
  The \<^verbatim>\<open>while\<close> loop. It may run for ever (a round whose fetches all fail changes
  nothing but the clock), so not returning is the value \<open>None\<close>. The result is the
  tally that the function prints, or the exception that leaves it;
  \<^verbatim>\<open>ThreadPoolExecutor\<close> raises \<^verbatim>\<open>ValueError\<close> for a worker count below one.
\<close>

partial_function (option) download_loop ::
  "env \<Rightarrow> settings \<Rightarrow> gdf \<Rightarrow> int \<Rightarrow> string \<Rightarrow> int \<Rightarrow> state \<Rightarrow> ((error + int) \<times> state) option" where
  "download_loop E G g total_images_to_download save_dir images_downloaded s =
     (if images_downloaded < total_images_to_download * 4 then
        (case generate_ll E g (total_images_to_download - int_truediv images_downloaded 4) s of
           (Inl e, s1) \<Rightarrow> Some (Inl e, s1)
         | (Inr data_list, s1) \<Rightarrow>
             if data_list = [] then Some (Inr images_downloaded, s1)
             else if num_workers G \<le> 0 then
               Some (Inl (ValueError ''max_workers must be greater than 0''), s1)
             else
               (case dispatch E G save_dir data_list images_downloaded s1 of
                  (images', s2) \<Rightarrow>
                    download_loop E G g total_images_to_download save_dir images' s2))
      else Some (Inr images_downloaded, s))"

definition download_images_from_country ::
  "env \<Rightarrow> settings \<Rightarrow> string \<Rightarrow> int \<Rightarrow> string \<Rightarrow> state \<Rightarrow> ((error + int) \<times> state) option" where
  "download_images_from_country E G country_name total_images_to_download save_dir s =
     (case load_shapefile_for_country E country_name s of
        (Inl e, s1) \<Rightarrow> Some (Inl e, s1)
      | (Inr g, s1) \<Rightarrow> download_loop E G g total_images_to_download save_dir 0 s1)"

subsection \<open>The sampler as the specification words it\<close>

text \<open>
  The representative coordinate of a road: the first vertex of a single polyline, the
  first vertex of the first component of a multi polyline, none for any other shape.
\<close>

definition spec_first_vertex :: "geometry \<Rightarrow> (pyfloat \<times> pyfloat) option" where
  "spec_first_vertex road =
     (case road of
        LineString (v # vs) \<Rightarrow> Some v
      | MultiLineString ((v # vs) # ls) \<Rightarrow> Some v
      | _ \<Rightarrow> None)"

text \<open>Four points per kept road, headings 2, 92, 182, 272 in that order; none for a
  skipped road.\<close>

definition spec_points :: "geometry \<Rightarrow> point list" where
  "spec_points road =
     (case spec_first_vertex road of
        None \<Rightarrow> []
      | Some (lon, lat) \<Rightarrow> [(lat, lon, 2), (lat, lon, 92), (lat, lon, 182), (lat, lon, 272)])"

text \<open>A row on which the sampler does not raise: a geometry of another shape, or a
  polyline that has the vertex the sampler reads. A row without a geometry is not one.\<close>

definition has_first_vertex :: "geometry \<Rightarrow> bool" where
  "has_first_vertex road = (road = OtherGeometry \<or> spec_first_vertex road \<noteq> None)"

subsection \<open>The module at start-up, and a mocked outside world\<close>

text \<open>The globals as the module initialises them; the key comes from the process
  environment.\<close>

definition default_settings :: "string option \<Rightarrow> settings" where
  "default_settings k =
     \<lparr>key = k, scrape_type = 0, samples_per_country = 400, pano = True, num_workers = 5\<rparr>"

definition initial_state :: state where
  "initial_state =
     \<lparr>clock = 0, gdf_cache = Map.empty, image_list = [], files = [], slept = 0, loads = []\<rparr>"

text \<open>A dataset of six roads, a metadata document of an existing panorama, and a world
  in which every load, every metadata query and every download succeeds.\<close>

definition mock_gdf :: gdf where
  "mock_gdf =
     [LineString [(1, 10), (2, 20)], MultiLineString [[(3, 30)], []], LineString [(4, 40)],
      LineString [(5, 50)], LineString [(6, 60)], LineString [(7, 70)]]"

definition ok_document :: json where
  "ok_document =
     JObj [(''status'', JStr ''OK''), (''date'', JStr ''2021-06''), (''pano_id'', JStr ''abc''),
           (''location'', JObj [(''lat'', JInt 48), (''lng'', JInt 2)])]"

definition mock_str_json :: "json \<Rightarrow> string" where
  "mock_str_json j = (case j of JInt i \<Rightarrow> str_int i | JStr s \<Rightarrow> s | _ \<Rightarrow> ''None'')"

definition mock_env :: env where
  "mock_env =
     \<lparr>regions_to_countries_dict =
        [(''Region 1'', [''Canada'']), (''Region 4'', [''France'', ''Spain''])],
      read_dataframe = (\<lambda>t p. Inr mock_gdf),
      rnd = (\<lambda>t. t),
      urlopen = (\<lambda>t u. Document ok_document),
      urlretrieve = (\<lambda>t u p. Saved),
      str_float = (\<lambda>x. ''0.0''),
      str_json = mock_str_json\<rparr>"

text \<open>Worlds that differ from the mock in one answer: the metadata document, the
  outcome of every download, or the outcome of every load.\<close>

definition answering :: "json \<Rightarrow> env" where
  "answering d = mock_env\<lparr>urlopen := (\<lambda>t u. Document d)\<rparr>"

definition downloading :: "dl_result \<Rightarrow> env" where
  "downloading r = mock_env\<lparr>urlretrieve := (\<lambda>t u p. r)\<rparr>"

definition failing_loads :: env where
  "failing_loads = mock_env\<lparr>read_dataframe := (\<lambda>t p. Inl ''No such file or directory'')\<rparr>"

definition unmapped_region_env :: env where
  "unmapped_region_env = mock_env\<lparr>regions_to_countries_dict := [(''Region 9'', [''Mars''])]\<rparr>"

definition no_location_document :: json where
  "no_location_document = JObj [(''status'', JStr ''OK''), (''pano_id'', JStr ''abc'')]"

definition empty_pano_document :: json where
  "empty_pano_document =
     JObj [(''status'', JStr ''OK''), (''pano_id'', JStr []),
           (''location'', JObj [(''lat'', JInt 48), (''lng'', JInt 2)])]"

definition slash_document :: json where
  "slash_document =
     JObj [(''status'', JStr ''OK''), (''pano_id'', JStr ''abc''),
           (''location'', JObj [(''lat'', JStr ''/tmp/x''), (''lng'', JInt 2)])]"

definition zero_results_document :: json where
  "zero_results_document = JObj [(''status'', JStr ''ZERO_RESULTS'')]"

subsection \<open>Predicates of the properties\<close>

text \<open>
  What a successful fetch leaves: the ledger entry \<open>im\<close> holds the tuple that the
  validator returned at some time \<open>t\<close> of the call, with a panorama id that counts as
  true, and a file name made of the validated latitude and longitude and the requested
  heading; one path, that file name joined to the output directory, was written.
\<close>

definition fetched :: "env \<Rightarrow> string \<Rightarrow> int \<Rightarrow> string \<Rightarrow> state \<Rightarrow> image_metadata \<Rightarrow> state \<Rightarrow> bool" where
  "fetched E MetaUrl Head SaveLoc s im s' =
     (\<exists>date pano_id lat lon t.
        im = (date, pano_id, lat, lon, filename_of E lat lon Head) \<and>
        files s' = files s @ [os_path_join SaveLoc (filename_of E lat lon Head)] \<and>
        clock s \<le> t \<and>
        fst (MetaParse E MetaUrl (s\<lparr>clock := t\<rparr>)) = Some (date, pano_id, lat, lon) \<and>
        truthy pano_id)"

text \<open>A provider that always succeeds: every metadata query returns a document with
  status OK and a panorama id that counts as true, and every download is saved.\<close>

definition always_succeeds :: "env \<Rightarrow> bool" where
  "always_succeeds E =
     ((\<forall>t u. \<exists>jsonData date pano_id lat lng.
         urlopen E t u = Document jsonData \<and>
         parse_document jsonData = Some (date, pano_id, lat, lng) \<and> truthy pano_id) \<and>
      (\<forall>t u p. urlretrieve E t u p = Saved))"

text \<open>The headings of a sequence of sample points, in order.\<close>

definition headings :: "point list \<Rightarrow> int list" where
  "headings data_list = map (\<lambda>(lat, lon, head). head) data_list"

text \<open>
  The ordered selections of \<open>n\<close> distinct rows out of \<open>L\<close>, as lists of row numbers, and
  the lists of \<open>n\<close> choices that are valid for \<open>L\<close> rows.
\<close>

definition selections :: "nat \<Rightarrow> nat \<Rightarrow> nat list set" where
  "selections L n = {ps. length ps = n \<and> distinct ps \<and> set ps \<subseteq> {..<L}}"

definition choice_lists :: "nat \<Rightarrow> nat \<Rightarrow> nat list set" where
  "choice_lists L n = {cs. length cs = n \<and> valid_choices L cs}"

text \<open>The separator that \<^verbatim>\<open>os.path.join\<close> puts after a directory \<open>a\<close>.\<close>

definition dir_sep :: "string \<Rightarrow> string" where
  "dir_sep a = (if a = [] \<or> last a = CHR ''/'' then [] else ''/'')"

section \<open>Properties\<close>

subsection \<open>The sampler\<close>

lemma int_truediv_nonneg: "0 \<le> a \<Longrightarrow> int_truediv a b = a div b"
  by (simp add: int_truediv_def)

lemma length_remove_row: "i < length xs \<Longrightarrow> length (remove_row i xs) = length xs - 1"
  by (simp add: remove_row_def)

lemma mset_remove_row: "i < length xs \<Longrightarrow> mset xs = add_mset (xs ! i) (mset (remove_row i xs))"
proof -
  assume "i < length xs"
  then have "xs = take i xs @ xs ! i # drop (Suc i) xs" by (rule id_take_nth_drop)
  then have "mset xs = mset (take i xs @ xs ! i # drop (Suc i) xs)" by simp
  then show ?thesis by (simp add: remove_row_def)
qed

lemma length_draw_rows: "length (draw_rows r t xs n) = min n (length xs)"
proof (induction n arbitrary: t xs)
  case (Suc n)
  show ?case
  proof (cases "xs = []")
    case False
    then have "r t mod length xs < length xs" by simp
    then show ?thesis using False Suc [of "Suc t" "remove_row (r t mod length xs) xs"]
      by (simp add: length_remove_row) (cases xs; simp)
  qed simp
qed simp

text \<open>Sampling is without replacement: no row is drawn more often than the dataset
  holds it.\<close>

lemma mset_draw_rows: "mset (draw_rows r t xs n) \<subseteq># mset xs"
proof (induction n arbitrary: t xs)
  case (Suc n)
  show ?case
  proof (cases "xs = []")
    case False
    let ?i = "r t mod length xs"
    have lt: "?i < length xs" using False by simp
    have "mset (draw_rows r (Suc t) (remove_row ?i xs) n) \<subseteq># mset (remove_row ?i xs)"
      by (rule Suc)
    then have "add_mset (xs ! ?i) (mset (draw_rows r (Suc t) (remove_row ?i xs) n))
                 \<subseteq># add_mset (xs ! ?i) (mset (remove_row ?i xs))"
      by simp
    then show ?thesis using False mset_remove_row [OF lt] by simp
  qed simp
qed simp

lemma set_draw_rows: "set (draw_rows r t xs n) \<subseteq> set xs"
  using mset_draw_rows [of r t xs n] by (metis set_mset_mono set_mset_mset)

lemma road_points_spec: "has_first_vertex road \<Longrightarrow> road_points road = Inr (spec_points road)"
  by (cases road rule: road_points.cases)
     (simp_all add: has_first_vertex_def spec_first_vertex_def spec_points_def four_points_def)

lemma road_points_raises:
  "\<not> has_first_vertex road \<Longrightarrow>
   road_points road = Inl (if road = NoGeometry then AttributeError else IndexError)"
  by (cases road rule: road_points.cases)
     (simp_all add: has_first_vertex_def spec_first_vertex_def)

lemma roads_loop_spec:
  "\<forall>road \<in> set roads. has_first_vertex road \<Longrightarrow>
   roads_loop roads ll_list = Inr (ll_list @ concat (map spec_points roads))"
  by (induction roads arbitrary: ll_list) (simp_all add: road_points_spec)

lemma length_spec_points: "length (spec_points road) = 0 \<or> length (spec_points road) = 4"
  by (simp add: spec_points_def split: option.splits prod.splits)

lemma length_concat_spec_points:
  "4 dvd length (concat (map spec_points roads)) \<and>
   length (concat (map spec_points roads)) \<le> 4 * length roads"
proof (induction roads)
  case (Cons road roads)
  then show ?case using length_spec_points [of road] by auto
qed simp

lemma generate_ll_no_roads:
  "int_truediv n2d 2 = 0 \<Longrightarrow> generate_ll E g n2d s = (Inr [], s)"
  by (cases g) (simp_all add: generate_ll_def gdf_sample_def)

text \<open>
  Claim C2. On a dataset that has roads, a point budget of 0 or 1 selects no road, so the
  sampler returns the empty sequence and leaves the state as it was. In the driver, once
  the budget of a round is 1 while the tally is still below four times the target, the
  loop returns the tally it has: it stops with the quota unmet.
\<close>

theorem sample_empty_below_two:
  assumes "g \<noteq> []"
  shows "(n2d = 0 \<or> n2d = 1 \<longrightarrow> generate_ll E g n2d s = (Inr [], s)) \<and>
         (0 \<le> images \<and> images < target * 4 \<and> target - images div 4 = 1 \<longrightarrow>
            download_loop E G g target save_dir images s = Some (Inr images, s))"
proof (intro conjI impI)
  assume "n2d = 0 \<or> n2d = 1"
  then have "int_truediv n2d 2 = 0" by (auto simp: int_truediv_def)
  then show "generate_ll E g n2d s = (Inr [], s)" by (rule generate_ll_no_roads)
next
  assume a: "0 \<le> images \<and> images < target * 4 \<and> target - images div 4 = 1"
  then have "int_truediv (target - int_truediv images 4) 2 = 0"
    by (simp add: int_truediv_def)
  then have "generate_ll E g (target - int_truediv images 4) s = (Inr [], s)"
    by (rule generate_ll_no_roads)
  with a show "download_loop E G g target save_dir images s = Some (Inr images, s)"
    by (subst download_loop.simps) simp
qed

theorem sample_empty_below_two_witness:
  "mock_gdf \<noteq> [] \<and> ((1::int) = 0 \<or> (1::int) = 1) \<and>
   generate_ll mock_env mock_gdf 1 initial_state = (Inr [], initial_state) \<and>
   (0::int) \<le> 36 \<and> (36::int) < 10 * 4 \<and> (10::int) - 36 div 4 = 1 \<and>
   download_loop mock_env (default_settings None) mock_gdf 10 ''./out'' 36 initial_state
     = Some (Inr 36, initial_state)"
proof -
  have g: "mock_gdf \<noteq> []" by (simp add: mock_gdf_def)
  show ?thesis
    using g sample_empty_below_two [OF g, of 1 mock_env initial_state 36 10 "default_settings None" "''./out''"]
    by simp
qed

lemma draw_rows_by: "draw_rows r t xs n = draw_by (map r [t..<t + n]) xs"
proof (induction n arbitrary: t xs)
  case (Suc n)
  have "[t..<t + Suc n] = t # [Suc t..<Suc t + n]" by (simp add: upt_conv_Cons)
  with Suc [of "Suc t"] show ?case by simp
qed simp

lemma remove_row_map: "remove_row i (map f xs) = map f (remove_row i xs)"
  by (simp add: remove_row_def take_map drop_map)

lemma draw_by_map: "draw_by cs (map f xs) = map f (draw_by cs xs)"
proof (induction cs arbitrary: xs)
  case (Cons c cs)
  show ?case
  proof (cases "xs = []")
    case False
    then have "c mod length xs < length xs" by simp
    with False Cons [of "remove_row (c mod length xs) xs"] show ?thesis
      by (simp add: remove_row_map)
  qed simp
qed simp

lemma draw_by_positions: "draw_by cs g = map ((!) g) (draw_by cs [0..<length g])"
proof -
  have "draw_by cs (map ((!) g) [0..<length g]) = map ((!) g) (draw_by cs [0..<length g])"
    by (rule draw_by_map)
  then show ?thesis by (simp add: map_nth)
qed

lemma set_remove_row:
  "distinct xs \<Longrightarrow> i < length xs \<Longrightarrow>
   distinct (remove_row i xs) \<and> set (remove_row i xs) = set xs - {xs ! i}"
proof -
  assume d: "distinct xs" and i: "i < length xs"
  have xs: "xs = take i xs @ xs ! i # drop (Suc i) xs" using i by (rule id_take_nth_drop)
  then have "distinct (take i xs @ xs ! i # drop (Suc i) xs)" using d by simp
  then have a: "distinct (take i xs @ drop (Suc i) xs)"
    and b: "xs ! i \<notin> set (take i xs @ drop (Suc i) xs)"
    by auto
  have "set xs = insert (xs ! i) (set (take i xs @ drop (Suc i) xs))"
    using arg_cong [OF xs, of set] by simp
  with a b show ?thesis by (auto simp: remove_row_def)
qed

lemma distinct_draw_rows: "distinct xs \<Longrightarrow> distinct (draw_rows r t xs n)"
proof (induction n arbitrary: t xs)
  case (Suc n)
  show ?case
  proof (cases "xs = []")
    case False
    let ?i = "r t mod length xs"
    have i: "?i < length xs" using False by simp
    have r: "distinct (remove_row ?i xs)" "set (remove_row ?i xs) = set xs - {xs ! ?i}"
      using set_remove_row [OF Suc.prems i] by simp_all
    have "distinct (draw_rows r (Suc t) (remove_row ?i xs) n)" using r(1) by (rule Suc.IH)
    moreover have "xs ! ?i \<notin> set (draw_rows r (Suc t) (remove_row ?i xs) n)"
      using set_draw_rows [of r "Suc t" "remove_row ?i xs" n] r(2) by auto
    ultimately show ?thesis using False by simp
  qed simp
qed simp

lemma draw_by_selection:
  "distinct xs \<Longrightarrow> valid_choices (length xs) cs \<Longrightarrow>
   length (draw_by cs xs) = length cs \<and> distinct (draw_by cs xs) \<and> set (draw_by cs xs) \<subseteq> set xs"
proof (induction cs arbitrary: xs)
  case (Cons c cs)
  from Cons.prems(2) have c: "c < length xs" and v: "valid_choices (length xs - 1) cs" by simp_all
  then have ne: "xs \<noteq> []" and m: "c mod length xs = c" by auto
  have r: "distinct (remove_row c xs)" "set (remove_row c xs) = set xs - {xs ! c}"
    using set_remove_row [OF Cons.prems(1) c] by simp_all
  have "valid_choices (length (remove_row c xs)) cs" using v c by (simp add: length_remove_row)
  from Cons.IH [OF r(1) this]
  have ih: "length (draw_by cs (remove_row c xs)) = length cs"
    "distinct (draw_by cs (remove_row c xs))"
    "set (draw_by cs (remove_row c xs)) \<subseteq> set xs - {xs ! c}"
    using r(2) by simp_all
  have "xs ! c \<in> set xs" using c by simp
  with ih ne m show ?case by auto
qed simp

lemma draw_by_inj:
  "distinct xs \<Longrightarrow> valid_choices (length xs) cs \<Longrightarrow> valid_choices (length xs) cs' \<Longrightarrow>
   draw_by cs xs = draw_by cs' xs \<Longrightarrow> cs = cs'"
proof (induction cs arbitrary: xs cs')
  case Nil
  show ?case
  proof (cases cs')
    case (Cons c' cs'')
    with Nil.prems(3) have "xs \<noteq> []" by auto
    with Nil.prems(4) Cons show ?thesis by simp
  qed simp
next
  case (Cons c cs)
  from Cons.prems(2) have c: "c < length xs" and v: "valid_choices (length xs - 1) cs" by simp_all
  then have ne: "xs \<noteq> []" and m: "c mod length xs = c" by auto
  show ?case
  proof (cases cs')
    case Nil
    with Cons.prems(4) ne show ?thesis by simp
  next
    case (Cons c' cs'')
    with Cons.prems(3) have c': "c' < length xs" and v': "valid_choices (length xs - 1) cs''"
      by simp_all
    then have m': "c' mod length xs = c'" by simp
    from Cons.prems(4) Cons ne m m'
    have h: "xs ! c = xs ! c'" and tl: "draw_by cs (remove_row c xs) = draw_by cs'' (remove_row c' xs)"
      by simp_all
    from h Cons.prems(1) c c' have eq: "c = c'" by (simp add: nth_eq_iff_index_eq)
    have d: "distinct (remove_row c xs)" using set_remove_row [OF Cons.prems(1) c] by simp
    have l: "length (remove_row c xs) = length xs - 1" using c by (rule length_remove_row)
    have "cs = cs''"
      using Cons.IH [OF d, of cs''] v v' tl eq l by simp
    with eq Cons show ?thesis by simp
  qed
qed

lemma draw_by_surj:
  "distinct xs \<Longrightarrow> distinct ps \<Longrightarrow> set ps \<subseteq> set xs \<Longrightarrow>
   \<exists>cs. length cs = length ps \<and> valid_choices (length xs) cs \<and> draw_by cs xs = ps"
proof (induction ps arbitrary: xs)
  case Nil
  show ?case by (rule exI [of _ "[]"]) simp
next
  case (Cons p ps)
  from Cons.prems(3) have "p \<in> set xs" by simp
  then obtain c where c: "c < length xs" "xs ! c = p" by (auto simp: in_set_conv_nth)
  then have ne: "xs \<noteq> []" and m: "c mod length xs = c" by auto
  have r: "distinct (remove_row c xs)" "set (remove_row c xs) = set xs - {p}"
    using set_remove_row [OF Cons.prems(1) c(1)] c(2) by simp_all
  have "distinct ps" "set ps \<subseteq> set (remove_row c xs)"
    using Cons.prems(2,3) r(2) by auto
  from Cons.IH [OF r(1) this]
  obtain cs where cs: "length cs = length ps" "valid_choices (length (remove_row c xs)) cs"
      "draw_by cs (remove_row c xs) = ps"
    by blast
  have "valid_choices (length xs) (c # cs)" using c(1) cs(2) by (simp add: length_remove_row)
  moreover have "draw_by (c # cs) xs = p # ps" using ne m c(2) cs(3) by simp
  ultimately show ?case using cs(1) by (intro exI [of _ "c # cs"]) simp
qed

lemma draw_by_uniform:
  "bij_betw (\<lambda>cs. draw_by cs [0..<L])
     {cs. length cs = n \<and> valid_choices L cs}
     {ps. length ps = n \<and> distinct ps \<and> set ps \<subseteq> {..<L}}"
  unfolding bij_betw_def
proof (intro conjI inj_onI set_eqI iffI)
  fix cs cs'
  assume "cs \<in> {cs. length cs = n \<and> valid_choices L cs}"
    and "cs' \<in> {cs. length cs = n \<and> valid_choices L cs}"
    and "draw_by cs [0..<L] = draw_by cs' [0..<L]"
  then show "cs = cs'" using draw_by_inj [of "[0..<L]" cs cs'] by simp
next
  fix ps
  assume "ps \<in> (\<lambda>cs. draw_by cs [0..<L]) ` {cs. length cs = n \<and> valid_choices L cs}"
  then obtain cs where cs: "length cs = n" "valid_choices L cs" "ps = draw_by cs [0..<L]"
    by auto
  with draw_by_selection [of "[0..<L]" cs]
  show "ps \<in> {ps. length ps = n \<and> distinct ps \<and> set ps \<subseteq> {..<L}}" by auto
next
  fix ps
  assume "ps \<in> {ps. length ps = n \<and> distinct ps \<and> set ps \<subseteq> {..<L}}"
  then have ps: "length ps = n" "distinct ps" "set ps \<subseteq> set [0..<L]" by auto
  from draw_by_surj [OF _ ps(2,3)]
  obtain cs where "length cs = length ps" "valid_choices L cs" "draw_by cs [0..<L] = ps"
    by auto
  with ps(1) show "ps \<in> (\<lambda>cs. draw_by cs [0..<L]) ` {cs. length cs = n \<and> valid_choices L cs}"
    by force
qed

lemma draw_rows_positions:
  assumes "n \<le> length g"
  shows "\<exists>ps. draw_rows r t g n = map ((!) g) ps \<and>
           ps = draw_by (map r [t..<t + n]) [0..<length g] \<and>
           length ps = n \<and> distinct ps \<and> set ps \<subseteq> {..<length g}"
proof -
  let ?ps = "draw_rows r t [0..<length g] n"
  have by_r: "?ps = draw_by (map r [t..<t + n]) [0..<length g]" by (rule draw_rows_by)
  have rows: "draw_rows r t g n = map ((!) g) ?ps"
    using draw_by_positions [of "map r [t..<t + n]" g] by (simp add: draw_rows_by)
  have len: "length ?ps = n" using assms by (simp add: length_draw_rows)
  have sub: "set ?ps \<subseteq> {..<length g}"
    using set_draw_rows [of r t "[0..<length g]" n] by auto
  have "distinct ?ps" by (rule distinct_draw_rows) simp
  with by_r rows len sub show ?thesis by blast
qed

text \<open>
  Claim C4, as stated, fails where the sampler raises: on a line string without a vertex
  (\<^verbatim>\<open>IndexError\<close>), on a row whose geometry is missing (\<^verbatim>\<open>AttributeError\<close>), and on
  a budget of \<open>-2\<close>, for which pandas refuses to sample \<open>-1\<close> rows (\<^verbatim>\<open>ValueError\<close>).
\<close>

theorem generate_ll_counterexample:
  "fst (generate_ll mock_env [LineString []] 2 initial_state) = Inl IndexError \<and>
   fst (generate_ll mock_env [LineString [(1, 10)], NoGeometry] 4 initial_state)
     = Inl AttributeError \<and>
   fst (generate_ll mock_env mock_gdf (- 2) initial_state)
     = Inl (ValueError ''A negative number of rows requested. Please provide `n` >= 0.'')"
  by (simp add: generate_ll_def int_truediv_def gdf_sample_def mock_gdf_def four_points_def)

text \<open>
  Claim C4, amended. For a point budget that is not negative and a dataset in which no
  row lacks its geometry and every polyline has the vertex the sampler reads, the
  sampler returns the points of a selection \<open>roads\<close>. When the dataset has more than
  \<open>n2d div 2\<close> roads, the selection is \<open>n2d div 2\<close> distinct rows of the dataset, those
  that the random numbers of the environment draw, none taken more often than the
  dataset holds it; and the draw is uniform: the ordered selections of that many
  distinct rows correspond one to one to the lists of choices, each choice made among
  the rows that remain, so that choices that are uniform make every selection equally
  likely. Otherwise the selection is every road of the dataset, in order. Each road
  gives the four points of its first vertex (of its first component, for a multi
  polyline) with headings 2, 92, 182, 272, and a road of another shape gives none. The
  length of the result is a multiple of 4 and at most \<open>2 * (n2d div 2) * 4\<close>.
\<close>

theorem generate_ll_selects_roads:
  assumes "0 \<le> n2d" and "\<forall>road \<in> set g. has_first_vertex road"
  shows "\<exists>roads.
           fst (generate_ll E g n2d s) = Inr (concat (map spec_points roads)) \<and>
           (if int (length g) > n2d div 2
            then int (length roads) = n2d div 2 \<and> mset roads \<subseteq># mset g \<and>
                 (\<exists>ps. roads = map ((!) g) ps \<and>
                    ps = draw_by (map (rnd E) [clock s..<clock s + nat (n2d div 2)]) [0..<length g] \<and>
                    ps \<in> selections (length g) (nat (n2d div 2))) \<and>
                 bij_betw (\<lambda>cs. draw_by cs [0..<length g])
                   (choice_lists (length g) (nat (n2d div 2)))
                   (selections (length g) (nat (n2d div 2)))
            else roads = g) \<and>
           4 dvd length (concat (map spec_points roads)) \<and>
           int (length (concat (map spec_points roads))) \<le> 2 * (n2d div 2) * 4"
proof -
  let ?n = "n2d div 2"
  have n: "int_truediv n2d 2 = ?n" "0 \<le> ?n" using assms(1) by (simp_all add: int_truediv_nonneg)
  define roads where "roads = (if int (length g) > ?n then draw_rows (rnd E) (clock s) g (nat ?n) else g)"
  have sub: "set roads \<subseteq> set g"
    using set_draw_rows [of "rnd E" "clock s" g "nat ?n"] by (auto simp: roads_def)
  then have ok: "\<forall>road \<in> set roads. has_first_vertex road" using assms(2) by blast
  have res: "fst (generate_ll E g n2d s) = Inr (concat (map spec_points roads))"
    using n roads_loop_spec [OF ok, of "[]"]
    by (simp add: generate_ll_def gdf_sample_def roads_def Let_def split: if_splits)
  have len: "int (length roads) \<le> ?n"
    using n(2) by (simp add: roads_def length_draw_rows)
  have sel: "if int (length g) > ?n
      then int (length roads) = ?n \<and> mset roads \<subseteq># mset g \<and>
           (\<exists>ps. roads = map ((!) g) ps \<and>
              ps = draw_by (map (rnd E) [clock s..<clock s + nat ?n]) [0..<length g] \<and>
              ps \<in> selections (length g) (nat ?n)) \<and>
           bij_betw (\<lambda>cs. draw_by cs [0..<length g])
             (choice_lists (length g) (nat ?n)) (selections (length g) (nat ?n))
      else roads = g"
  proof (cases "int (length g) > ?n")
    case True
    then have le: "nat ?n \<le> length g" by linarith
    have a: "int (length roads) = ?n \<and> mset roads \<subseteq># mset g"
      using True n(2) mset_draw_rows [of "rnd E" "clock s" g "nat ?n"]
      by (simp add: roads_def length_draw_rows)
    have b: "\<exists>ps. roads = map ((!) g) ps \<and>
              ps = draw_by (map (rnd E) [clock s..<clock s + nat ?n]) [0..<length g] \<and>
              ps \<in> selections (length g) (nat ?n)"
      using True draw_rows_positions [OF le, of "rnd E" "clock s"]
      by (simp add: roads_def selections_def)
    have c: "bij_betw (\<lambda>cs. draw_by cs [0..<length g])
             (choice_lists (length g) (nat ?n)) (selections (length g) (nat ?n))"
      unfolding choice_lists_def selections_def by (rule draw_by_uniform)
    from True a b c show ?thesis by simp
  next
    case False
    then show ?thesis by (simp add: roads_def)
  qed
  have "int (length (concat (map spec_points roads))) \<le> 4 * int (length roads)"
    using length_concat_spec_points [of roads] by linarith
  then have bound: "int (length (concat (map spec_points roads))) \<le> 2 * ?n * 4"
    using len n(2) by linarith
  show ?thesis
    using res sel bound length_concat_spec_points [of roads] by blast
qed

theorem generate_ll_selects_roads_witness:
  "(0::int) \<le> 5 \<and> list_all has_first_vertex mock_gdf \<and>
   (\<exists>roads.
      fst (generate_ll mock_env mock_gdf 5 initial_state) = Inr (concat (map spec_points roads)) \<and>
      (if int (length mock_gdf) > 5 div 2
       then int (length roads) = 5 div 2 \<and> mset roads \<subseteq># mset mock_gdf \<and>
            (\<exists>ps. roads = map ((!) mock_gdf) ps \<and>
               ps = draw_by (map (rnd mock_env)
                      [clock initial_state..<clock initial_state + nat (5 div 2)])
                      [0..<length mock_gdf] \<and>
               ps \<in> selections (length mock_gdf) (nat (5 div 2))) \<and>
            bij_betw (\<lambda>cs. draw_by cs [0..<length mock_gdf])
              (choice_lists (length mock_gdf) (nat (5 div 2)))
              (selections (length mock_gdf) (nat (5 div 2)))
       else roads = mock_gdf) \<and>
      4 dvd length (concat (map spec_points roads)) \<and>
      int (length (concat (map spec_points roads))) \<le> 2 * (5 div 2) * 4)"
proof -
  have h: "\<forall>road \<in> set mock_gdf. has_first_vertex road"
    by (simp add: mock_gdf_def has_first_vertex_def spec_first_vertex_def)
  have n: "(0::int) \<le> 5" by simp
  have l: "list_all has_first_vertex mock_gdf" using h by (simp add: list_all_iff)
  from n l generate_ll_selects_roads [OF n h, of mock_env initial_state]
  show ?thesis by (intro conjI)
qed

subsection \<open>The mocked world, evaluated\<close>

lemma str_int_mock: "str_int 48 = ''48''" "str_int 2 = ''2''" "str_int 92 = ''92''"
  by (simp_all add: str_int_def str_nat.simps)

lemma mock_parse_document:
  "parse_document ok_document = Some (JStr ''2021-06'', JStr ''abc'', JInt 48, JInt 2)"
  by (simp add: ok_document_def parse_document_def dict_get_def)

lemma mock_MetaParse:
  "MetaParse mock_env u s = (Some (JStr ''2021-06'', JStr ''abc'', JInt 48, JInt 2), tick s)"
  by (simp add: MetaParse_def mock_env_def mock_parse_document)

lemma downloading_MetaParse:
  "MetaParse (downloading r) u s = (Some (JStr ''2021-06'', JStr ''abc'', JInt 48, JInt 2), tick s)"
  by (simp add: MetaParse_def downloading_def mock_env_def mock_parse_document)

lemma answering_MetaParse: "MetaParse (answering d) u s = (parse_document d, tick s)"
  by (simp add: MetaParse_def answering_def mock_env_def)

lemma mock_filename: "filename_of mock_env (JInt 48) (JInt 2) 92 = ''48_2_92.jpg''"
  by (simp add: filename_of_def mock_env_def mock_str_json_def str_int_mock)

lemma mock_path: "os_path_join ''./out'' ''48_2_92.jpg'' = ''./out/48_2_92.jpg''"
  by (simp add: os_path_join_def)

lemma mock_urlretrieve: "urlretrieve mock_env t u p = Saved"
  by (simp add: mock_env_def)

lemma downloading_urlretrieve: "urlretrieve (downloading r) t u p = r"
  by (simp add: downloading_def mock_env_def)

lemma mock_fetch:
  "GetStreetLL mock_env (default_settings None) 10 1 92 ''./out'' 3 initial_state =
     ((Some (JStr ''2021-06'', JStr ''abc'', JInt 48, JInt 2, ''48_2_92.jpg''), 1),
      initial_state\<lparr>clock := 2, files := [''./out/48_2_92.jpg'']\<rparr>)"
  by (simp add: GetStreetLL_def eval_nat_numeral mock_MetaParse mock_filename mock_path
        mock_urlretrieve tick_def initial_state_def Let_def)

lemma mock_region_of:
  "region_of (regions_to_countries_dict mock_env) ''France'' = Some ''Region 4''"
  "region_of (regions_to_countries_dict mock_env) ''Spain'' = Some ''Region 4''"
  "region_of (regions_to_countries_dict failing_loads) ''France'' = Some ''Region 4''"
  "region_of (regions_to_countries_dict unmapped_region_env) ''Mars'' = Some ''Region 9''"
  by (simp_all add: mock_env_def failing_loads_def unmapped_region_env_def)

lemma mock_table:
  "map_of region_shp_paths ''Region 4'' = Some ''./GRIP4/GRIP4_Region4_vector_shp/GRIP4_region4.shp''"
  "map_of region_shp_paths ''Region 9'' = None"
  by (simp_all add: region_shp_paths_def)

lemma mock_load_France:
  "load_shapefile_for_country mock_env ''France'' initial_state =
     (Inr mock_gdf,
      initial_state\<lparr>clock := 1,
        loads := [''./GRIP4/GRIP4_Region4_vector_shp/GRIP4_region4.shp''],
        gdf_cache := [''Region 4'' \<mapsto> mock_gdf]\<rparr>)"
proof -
  have idx: "regions_to_countries_dict mock_env
      = [(''Region 1'', [''Canada'']), (''Region 4'', [''France'', ''Spain''])]"
    and rd: "read_dataframe mock_env t p = Inr mock_gdf" for t p
    by (simp_all add: mock_env_def)
  show ?thesis
    by (simp add: load_shapefile_for_country_def idx load_region_def mock_table initial_state_def rd)
qed

subsection \<open>The metadata validator\<close>

lemma MetaParse_snd: "snd (MetaParse E MetaUrl s) = tick s"
  by (simp add: MetaParse_def)

lemma MetaParse_fst_clock:
  "clock s = clock s' \<Longrightarrow> fst (MetaParse E MetaUrl s) = fst (MetaParse E MetaUrl s')"
  by (simp add: MetaParse_def)

lemma parse_document_Some:
  "parse_document jsonData = Some (date, pano_id, lat, lng) \<longleftrightarrow>
     subscript jsonData ''status'' = Some (JStr ''OK'') \<and>
     subscript jsonData ''pano_id'' = Some pano_id \<and>
     (\<exists>location. subscript jsonData ''location'' = Some location \<and>
        subscript location ''lat'' = Some lat \<and> subscript location ''lng'' = Some lng) \<and>
     date = dict_get jsonData ''date''"
  by (auto simp: parse_document_def split: option.splits)

text \<open>
  Claim C9, as stated, fails in both directions. A document with status OK and a
  panorama id but no location gives absent: reading \<^verbatim>\<open>jsonData['location']\<close> raises
  inside the \<^verbatim>\<open>try\<close>. A document with status OK and an empty panorama id gives the
  tuple: the validator returns whatever the key holds, and it is the fetcher that tests
  the panorama id.
\<close>

theorem MetaParse_counterexample:
  "subscript no_location_document ''status'' = Some (JStr ''OK'') \<and>
   subscript no_location_document ''pano_id'' = Some (JStr ''abc'') \<and>
   fst (MetaParse (answering no_location_document) ''u'' initial_state) = None \<and>
   \<not> truthy (JStr []) \<and>
   fst (MetaParse (answering empty_pano_document) ''u'' initial_state)
     = Some (JNull, JStr [], JInt 48, JInt 2)"
  by (simp add: answering_MetaParse no_location_document_def empty_pano_document_def
        parse_document_def dict_get_def)

text \<open>
  Claim C9, amended. The validator returns \<open>(date, pano_id, lat, lng)\<close> exactly when the
  response is a JSON object whose status is \<^verbatim>\<open>"OK"\<close> and which has a key
  \<^verbatim>\<open>pano_id\<close> (whatever it holds) and a \<^verbatim>\<open>location\<close> with keys \<^verbatim>\<open>lat\<close> and
  \<^verbatim>\<open>lng\<close>; the date is the value of \<^verbatim>\<open>date\<close>, or null. In every other case (a
  failure of the transport, a body that is not JSON, another status, a missing key) it
  returns absent. The result is an optional tuple: no exception leaves the validator.
\<close>

theorem MetaParse_returns:
  "fst (MetaParse E MetaUrl s) = Some (date, pano_id, lat, lng) \<longleftrightarrow>
     (\<exists>jsonData location.
        urlopen E (clock s) MetaUrl = Document jsonData \<and>
        subscript jsonData ''status'' = Some (JStr ''OK'') \<and>
        subscript jsonData ''pano_id'' = Some pano_id \<and>
        subscript jsonData ''location'' = Some location \<and>
        subscript location ''lat'' = Some lat \<and>
        subscript location ''lng'' = Some lng \<and>
        date = dict_get jsonData ''date'')"
  by (cases "urlopen E (clock s) MetaUrl") (auto simp: MetaParse_def parse_document_Some)

theorem MetaParse_returns_witness:
  "fst (MetaParse mock_env ''u'' initial_state)
     = Some (JStr ''2021-06'', JStr ''abc'', JInt 48, JInt 2) \<and>
   fst (MetaParse (answering zero_results_document) ''u'' initial_state) = None"
proof -
  have "\<exists>jsonData location.
        urlopen mock_env (clock initial_state) ''u'' = Document jsonData \<and>
        subscript jsonData ''status'' = Some (JStr ''OK'') \<and>
        subscript jsonData ''pano_id'' = Some (JStr ''abc'') \<and>
        subscript jsonData ''location'' = Some location \<and>
        subscript location ''lat'' = Some (JInt 48) \<and>
        subscript location ''lng'' = Some (JInt 2) \<and>
        JStr ''2021-06'' = dict_get jsonData ''date''"
    by (simp add: mock_env_def ok_document_def dict_get_def)
  then have a: "fst (MetaParse mock_env ''u'' initial_state)
     = Some (JStr ''2021-06'', JStr ''abc'', JInt 48, JInt 2)"
    by (simp only: MetaParse_returns)
  have "\<not> (\<exists>jsonData location.
        urlopen (answering zero_results_document) (clock initial_state) ''u'' = Document jsonData \<and>
        subscript jsonData ''status'' = Some (JStr ''OK'') \<and>
        subscript jsonData ''pano_id'' = Some pano_id \<and>
        subscript jsonData ''location'' = Some location \<and>
        subscript location ''lat'' = Some lat \<and>
        subscript location ''lng'' = Some lng \<and>
        date = dict_get jsonData ''date'')" for date pano_id lat lng
    by (simp add: answering_def mock_env_def zero_results_document_def)
  then have "fst (MetaParse (answering zero_results_document) ''u'' initial_state)
      \<noteq> Some (date, pano_id, lat, lng)" for date pano_id lat lng
    by (simp only: MetaParse_returns not_False_eq_True)
  then have b: "fst (MetaParse (answering zero_results_document) ''u'' initial_state) = None"
    by (cases "fst (MetaParse (answering zero_results_document) ''u'' initial_state)") auto
  from a b show ?thesis by (rule conjI)
qed

subsection \<open>The image fetcher\<close>

lemma retry_loop_clock:
  "clock (snd (retry_loop E MyUrl MetaUrl Head SaveLoc n s)) \<le> clock s + 2 * n"
proof (induction n arbitrary: s)
  case (Suc n)
  obtain m s1 where mp: "MetaParse E MetaUrl s = (m, s1)" by (cases "MetaParse E MetaUrl s")
  then have s1: "s1 = tick s" using MetaParse_snd [of E MetaUrl s] by simp
  have a: "clock (snd (retry_loop E MyUrl MetaUrl Head SaveLoc n s1)) \<le> clock s + 2 * Suc n"
    using Suc [of s1] by (simp add: s1 tick_def)
  have b: "clock (snd (retry_loop E MyUrl MetaUrl Head SaveLoc n
              (s1\<lparr>clock := Suc (clock s1), slept := slept s1 + 5\<rparr>))) \<le> clock s + 2 * Suc n"
    using Suc [of "s1\<lparr>clock := Suc (clock s1), slept := slept s1 + 5\<rparr>"] by (simp add: s1 tick_def)
  show ?case
  proof (cases m)
    case None
    with mp a show ?thesis by simp
  next
    case (Some md)
    obtain date pano_id lat lon where md: "md = (date, pano_id, lat, lon)" by (cases md)
    show ?thesis
    proof (cases "truthy pano_id")
      case False
      with mp Some md a show ?thesis by simp
    next
      case True
      show ?thesis
      proof (cases "urlretrieve E (clock s1) MyUrl (os_path_join SaveLoc (filename_of E lat lon Head))")
        case Saved
        with mp Some md True show ?thesis by (simp add: s1 tick_def Let_def)
      next
        case HTTPError
        with mp Some md True b show ?thesis by (simp add: Let_def)
      next
        case (OtherError left)
        with mp Some md True show ?thesis by (simp add: s1 tick_def Let_def)
      qed
    qed
  qed
qed simp

lemma retry_loop_absent:
  "\<forall>t. fst (MetaParse E MetaUrl (s\<lparr>clock := t\<rparr>)) = None \<Longrightarrow>
   retry_loop E MyUrl MetaUrl Head SaveLoc n s = ((None, 0), s\<lparr>clock := clock s + n\<rparr>)"
proof (induction n arbitrary: s)
  case (Suc n)
  have "fst (MetaParse E MetaUrl (s\<lparr>clock := clock s\<rparr>)) = None" using Suc.prems by blast
  then have mp: "MetaParse E MetaUrl s = (None, tick s)"
    using MetaParse_snd [of E MetaUrl s] by (simp add: prod_eq_iff)
  have "\<forall>t. fst (MetaParse E MetaUrl ((tick s)\<lparr>clock := t\<rparr>)) = None"
    using Suc.prems by (simp add: tick_def)
  then have "retry_loop E MyUrl MetaUrl Head SaveLoc n (tick s) = ((None, 0), (tick s)\<lparr>clock := clock (tick s) + n\<rparr>)"
    by (rule Suc.IH)
  with mp show ?case by (simp add: tick_def)
qed simp

text \<open>
  Claim C5. A fetch makes at most \<open>retries\<close> attempts, each a metadata query followed
  by at most one download, hence at most \<open>2 * retries\<close> outside calls, and at most six
  with the default of three. An attempt whose download raises \<^verbatim>\<open>HTTPError\<close> costs five
  seconds of sleep, and the fetch goes on as a fetch of the same point with one attempt
  fewer. An attempt whose download raises anything else ends the fetch with
  \<open>(None, 0)\<close> after the two calls of that attempt, without sleep. When the validator
  returns absent at every time, the fetch returns \<open>(None, 0)\<close> after \<open>retries\<close>
  metadata queries and changes nothing but the clock: no file is written.
\<close>

theorem GetStreetLL_attempts:
  "clock (snd (GetStreetLL E G Lat Lon Head SaveLoc retries s)) \<le> clock s + 2 * nat retries \<and>
   clock (snd (GetStreetLL E G Lat Lon Head SaveLoc default_retries s)) \<le> clock s + 6 \<and>
   (0 < retries \<and>
    MetaParse E (MetaUrl_of E G Lat Lon Head) s = (Some (date, pano_id, lat, lon), s1) \<and>
    truthy pano_id \<and>
    urlretrieve E (clock s1) (MyUrl_of E G Lat Lon Head)
      (os_path_join SaveLoc (filename_of E lat lon Head)) = HTTPError \<longrightarrow>
    GetStreetLL E G Lat Lon Head SaveLoc retries s =
      GetStreetLL E G Lat Lon Head SaveLoc (retries - 1)
        (s1\<lparr>clock := Suc (clock s1), slept := slept s1 + 5\<rparr>)) \<and>
   (0 < retries \<and>
    MetaParse E (MetaUrl_of E G Lat Lon Head) s = (Some (date, pano_id, lat, lon), s1) \<and>
    truthy pano_id \<and>
    urlretrieve E (clock s1) (MyUrl_of E G Lat Lon Head)
      (os_path_join SaveLoc (filename_of E lat lon Head)) = OtherError left \<longrightarrow>
    fst (GetStreetLL E G Lat Lon Head SaveLoc retries s) = (None, 0) \<and>
    clock (snd (GetStreetLL E G Lat Lon Head SaveLoc retries s)) = clock s + 2 \<and>
    slept (snd (GetStreetLL E G Lat Lon Head SaveLoc retries s)) = slept s) \<and>
   ((\<forall>t. fst (MetaParse E (MetaUrl_of E G Lat Lon Head) (s\<lparr>clock := t\<rparr>)) = None) \<longrightarrow>
    GetStreetLL E G Lat Lon Head SaveLoc retries s = ((None, 0), s\<lparr>clock := clock s + nat retries\<rparr>))"
proof (intro conjI impI)
  show "clock (snd (GetStreetLL E G Lat Lon Head SaveLoc retries s)) \<le> clock s + 2 * nat retries"
    unfolding GetStreetLL_def by (rule retry_loop_clock)
  show "clock (snd (GetStreetLL E G Lat Lon Head SaveLoc default_retries s)) \<le> clock s + 6"
    unfolding GetStreetLL_def default_retries_def
    using retry_loop_clock [of E _ _ Head SaveLoc "nat 3" s] by simp
next
  assume a: "0 < retries \<and>
    MetaParse E (MetaUrl_of E G Lat Lon Head) s = (Some (date, pano_id, lat, lon), s1) \<and>
    truthy pano_id \<and>
    urlretrieve E (clock s1) (MyUrl_of E G Lat Lon Head)
      (os_path_join SaveLoc (filename_of E lat lon Head)) = HTTPError"
  then have n: "nat retries = Suc (nat (retries - 1))" by linarith
  with a show "GetStreetLL E G Lat Lon Head SaveLoc retries s =
      GetStreetLL E G Lat Lon Head SaveLoc (retries - 1)
        (s1\<lparr>clock := Suc (clock s1), slept := slept s1 + 5\<rparr>)"
    by (simp add: GetStreetLL_def Let_def)
next
  assume a: "0 < retries \<and>
    MetaParse E (MetaUrl_of E G Lat Lon Head) s = (Some (date, pano_id, lat, lon), s1) \<and>
    truthy pano_id \<and>
    urlretrieve E (clock s1) (MyUrl_of E G Lat Lon Head)
      (os_path_join SaveLoc (filename_of E lat lon Head)) = OtherError left"
  then have n: "nat retries = Suc (nat (retries - 1))" by linarith
  have s1: "s1 = tick s" using a MetaParse_snd [of E "MetaUrl_of E G Lat Lon Head" s] by simp
  from a n show "fst (GetStreetLL E G Lat Lon Head SaveLoc retries s) = (None, 0)"
    by (simp add: GetStreetLL_def Let_def)
  from a n show "clock (snd (GetStreetLL E G Lat Lon Head SaveLoc retries s)) = clock s + 2"
    by (simp add: GetStreetLL_def s1 tick_def Let_def)
  from a n show "slept (snd (GetStreetLL E G Lat Lon Head SaveLoc retries s)) = slept s"
    by (simp add: GetStreetLL_def s1 tick_def Let_def)
next
  assume "\<forall>t. fst (MetaParse E (MetaUrl_of E G Lat Lon Head) (s\<lparr>clock := t\<rparr>)) = None"
  then show "GetStreetLL E G Lat Lon Head SaveLoc retries s = ((None, 0), s\<lparr>clock := clock s + nat retries\<rparr>)"
    unfolding GetStreetLL_def by (rule retry_loop_absent)
qed

theorem GetStreetLL_attempts_witness:
  "(0::int) < 3 \<and>
   MetaParse (downloading HTTPError) (MetaUrl_of (downloading HTTPError) (default_settings None) 10 1 92)
      initial_state
     = (Some (JStr ''2021-06'', JStr ''abc'', JInt 48, JInt 2), tick initial_state) \<and>
   truthy (JStr ''abc'') \<and>
   urlretrieve (downloading HTTPError) (clock (tick initial_state))
      (MyUrl_of (downloading HTTPError) (default_settings None) 10 1 92)
      (os_path_join ''./out'' (filename_of (downloading HTTPError) (JInt 48) (JInt 2) 92)) = HTTPError \<and>
   GetStreetLL (downloading HTTPError) (default_settings None) 10 1 92 ''./out'' 3 initial_state =
     GetStreetLL (downloading HTTPError) (default_settings None) 10 1 92 ''./out'' (3 - 1)
       ((tick initial_state)\<lparr>clock := Suc (clock (tick initial_state)),
                               slept := slept (tick initial_state) + 5\<rparr>) \<and>
   urlretrieve (downloading (OtherError False)) (clock (tick initial_state))
      (MyUrl_of (downloading (OtherError False)) (default_settings None) 10 1 92)
      (os_path_join ''./out'' (filename_of (downloading (OtherError False)) (JInt 48) (JInt 2) 92))
     = OtherError False \<and>
   fst (GetStreetLL (downloading (OtherError False)) (default_settings None) 10 1 92 ''./out'' 3
          initial_state) = (None, 0) \<and>
   clock (snd (GetStreetLL (downloading (OtherError False)) (default_settings None) 10 1 92 ''./out'' 3
          initial_state)) = clock initial_state + 2 \<and>
   (\<forall>t. fst (MetaParse (answering zero_results_document)
              (MetaUrl_of (answering zero_results_document) (default_settings None) 10 1 92)
              (initial_state\<lparr>clock := t\<rparr>)) = None) \<and>
   GetStreetLL (answering zero_results_document) (default_settings None) 10 1 92 ''./out'' 3
       initial_state
     = ((None, 0), initial_state\<lparr>clock := clock initial_state + nat 3\<rparr>) \<and>
   clock (snd (GetStreetLL mock_env (default_settings None) 10 1 92 ''./out'' 3 initial_state))
     \<le> clock initial_state + 2 * nat 3"
proof -
  let ?G = "default_settings None"
  let ?md = "(JStr ''2021-06'', JStr ''abc'', JInt 48, JInt 2)"
  have pos: "(0::int) < 3" and tr: "truthy (JStr ''abc'')" by simp_all
  have m1: "MetaParse (downloading r) (MetaUrl_of (downloading r) ?G 10 1 92) initial_state
              = (Some ?md, tick initial_state)" for r
    by (rule downloading_MetaParse)
  have u1: "urlretrieve (downloading r) (clock (tick initial_state))
              (MyUrl_of (downloading r) ?G 10 1 92)
              (os_path_join ''./out'' (filename_of (downloading r) (JInt 48) (JInt 2) 92)) = r" for r
    by (rule downloading_urlretrieve)
  have z: "\<forall>t. fst (MetaParse (answering zero_results_document)
              (MetaUrl_of (answering zero_results_document) ?G 10 1 92)
              (initial_state\<lparr>clock := t\<rparr>)) = None"
    by (simp add: answering_MetaParse zero_results_document_def parse_document_def)
  note http = GetStreetLL_attempts [of "downloading HTTPError" ?G 10 1 92 "''./out''" 3 initial_state
      "JStr ''2021-06''" "JStr ''abc''" "JInt 48" "JInt 2" "tick initial_state" False]
  note other = GetStreetLL_attempts [of "downloading (OtherError False)" ?G 10 1 92 "''./out''" 3
      initial_state "JStr ''2021-06''" "JStr ''abc''" "JInt 48" "JInt 2" "tick initial_state" False]
  note absent = GetStreetLL_attempts [of "answering zero_results_document" ?G 10 1 92 "''./out''" 3
      initial_state "JStr ''2021-06''" "JStr ''abc''" "JInt 48" "JInt 2" "tick initial_state" False]
  note bound = GetStreetLL_attempts [of mock_env ?G 10 1 92 "''./out''" 3
      initial_state "JStr ''2021-06''" "JStr ''abc''" "JInt 48" "JInt 2" "tick initial_state" False]
  have c1: "GetStreetLL (downloading HTTPError) ?G 10 1 92 ''./out'' 3 initial_state =
     GetStreetLL (downloading HTTPError) ?G 10 1 92 ''./out'' (3 - 1)
       ((tick initial_state)\<lparr>clock := Suc (clock (tick initial_state)),
                               slept := slept (tick initial_state) + 5\<rparr>)"
    using http pos tr m1 [of HTTPError] u1 [of HTTPError] by blast
  have c2: "fst (GetStreetLL (downloading (OtherError False)) ?G 10 1 92 ''./out'' 3 initial_state)
              = (None, 0) \<and>
            clock (snd (GetStreetLL (downloading (OtherError False)) ?G 10 1 92 ''./out'' 3
              initial_state)) = clock initial_state + 2"
    using other pos tr m1 [of "OtherError False"] u1 [of "OtherError False"] by blast
  have c3: "GetStreetLL (answering zero_results_document) ?G 10 1 92 ''./out'' 3 initial_state
              = ((None, 0), initial_state\<lparr>clock := clock initial_state + nat 3\<rparr>)"
    using absent z by blast
  have c4: "clock (snd (GetStreetLL mock_env ?G 10 1 92 ''./out'' 3 initial_state))
              \<le> clock initial_state + 2 * nat 3"
    using bound by blast
  show ?thesis
    using pos tr m1 [of HTTPError] u1 [of HTTPError] u1 [of "OtherError False"] c1 c2 c3 c4 z
    by blast
qed

lemma fetched_later:
  assumes "fetched E MetaUrl Head SaveLoc s1 im s'" and "files s1 = files s" and "clock s \<le> clock s1"
  shows "fetched E MetaUrl Head SaveLoc s im s'"
proof -
  from assms(1) obtain date pano_id lat lon t where h:
    "im = (date, pano_id, lat, lon, filename_of E lat lon Head)"
    "files s' = files s1 @ [os_path_join SaveLoc (filename_of E lat lon Head)]"
    "clock s1 \<le> t"
    "fst (MetaParse E MetaUrl (s1\<lparr>clock := t\<rparr>)) = Some (date, pano_id, lat, lon)"
    "truthy pano_id"
    unfolding fetched_def by (elim exE conjE)
  have "fst (MetaParse E MetaUrl (s\<lparr>clock := t\<rparr>)) = fst (MetaParse E MetaUrl (s1\<lparr>clock := t\<rparr>))"
    by (rule MetaParse_fst_clock) simp
  with h assms(2,3) show ?thesis unfolding fetched_def
    by (intro exI [of _ date] exI [of _ pano_id] exI [of _ lat] exI [of _ lon] exI [of _ t]) simp
qed

lemma retry_loop_result:
  "retry_loop E MyUrl MetaUrl Head SaveLoc n s = ((image_metadata, flag), s') \<Longrightarrow>
   (image_metadata = None \<and> flag = 0) \<or>
   (\<exists>im. image_metadata = Some im \<and> flag = 1 \<and> fetched E MetaUrl Head SaveLoc s im s')"
proof (induction n arbitrary: s)
  case (Suc n)
  obtain m s1 where mp: "MetaParse E MetaUrl s = (m, s1)" by (cases "MetaParse E MetaUrl s")
  then have s1: "s1 = tick s" using MetaParse_snd [of E MetaUrl s] by simp
  have later: ?case
    if r: "retry_loop E MyUrl MetaUrl Head SaveLoc n s2 = ((image_metadata, flag), s')"
      and f: "files s2 = files s" and c: "clock s \<le> clock s2" for s2
    using Suc.IH [OF r]
  proof
    assume "image_metadata = None \<and> flag = 0"
    then show ?thesis by (rule disjI1)
  next
    assume "\<exists>im. image_metadata = Some im \<and> flag = 1 \<and> fetched E MetaUrl Head SaveLoc s2 im s'"
    then obtain im where im: "image_metadata = Some im" "flag = 1"
        "fetched E MetaUrl Head SaveLoc s2 im s'"
      by (elim exE conjE)
    from im(3) f c have "fetched E MetaUrl Head SaveLoc s im s'" by (rule fetched_later)
    with im(1,2) show ?thesis by simp
  qed
  show ?case
  proof (cases m)
    case None
    with mp Suc.prems have "retry_loop E MyUrl MetaUrl Head SaveLoc n s1 = ((image_metadata, flag), s')"
      by simp
    then show ?thesis by (rule later) (simp_all add: s1 tick_def)
  next
    case (Some md)
    obtain date pano_id lat lon where md: "md = (date, pano_id, lat, lon)" by (cases md)
    show ?thesis
    proof (cases "truthy pano_id")
      case False
      with mp Some md Suc.prems
      have "retry_loop E MyUrl MetaUrl Head SaveLoc n s1 = ((image_metadata, flag), s')"
        by simp
      then show ?thesis by (rule later) (simp_all add: s1 tick_def)
    next
      case True
      let ?path = "os_path_join SaveLoc (filename_of E lat lon Head)"
      show ?thesis
      proof (cases "urlretrieve E (clock s1) MyUrl ?path")
        case Saved
        with mp Some md True Suc.prems
        have r: "image_metadata = Some (date, pano_id, lat, lon, filename_of E lat lon Head)"
          "flag = 1" "s' = s1\<lparr>clock := Suc (clock s1), files := files s1 @ [?path]\<rparr>"
          by (simp_all add: Let_def)
        have "fst (MetaParse E MetaUrl (s\<lparr>clock := clock s\<rparr>)) = Some (date, pano_id, lat, lon)"
          using mp Some md by simp
        then have "fetched E MetaUrl Head SaveLoc s (date, pano_id, lat, lon, filename_of E lat lon Head) s'"
          unfolding fetched_def using True r(3)
          by (intro exI [of _ date] exI [of _ pano_id] exI [of _ lat] exI [of _ lon] exI [of _ "clock s"])
             (simp add: s1 tick_def)
        with r show ?thesis by simp
      next
        case HTTPError
        with mp Some md True Suc.prems
        have "retry_loop E MyUrl MetaUrl Head SaveLoc n
                (s1\<lparr>clock := Suc (clock s1), slept := slept s1 + 5\<rparr>) = ((image_metadata, flag), s')"
          by (simp add: Let_def)
        then show ?thesis by (rule later) (simp_all add: s1 tick_def)
      next
        case (OtherError left)
        with mp Some md True Suc.prems show ?thesis by (simp add: Let_def)
      qed
    qed
  qed
qed simp

lemma digit_no_slash: "k < 10 \<Longrightarrow> ''0123456789'' ! k \<noteq> CHR ''/''"
proof -
  assume "k < 10"
  then have "''0123456789'' ! k \<in> set ''0123456789''" by (intro nth_mem) simp
  then show ?thesis by auto
qed

lemma str_nat_no_slash: "CHR ''/'' \<notin> set (str_nat n)"
proof (induction n rule: str_nat.induct)
  case (1 n)
  show ?case
  proof (cases "n < 10")
    case True
    then show ?thesis using digit_no_slash [of n] by (subst str_nat.simps) simp
  next
    case False
    have "n mod 10 < 10" by simp
    with False 1 show ?thesis using digit_no_slash [of "n mod 10"]
      by (subst str_nat.simps) simp
  qed
qed

lemma str_int_no_slash: "CHR ''/'' \<notin> set (str_int i)"
  by (simp add: str_int_def str_nat_no_slash)

lemma filename_no_slash:
  "CHR ''/'' \<notin> set (str_json E lat) \<Longrightarrow> CHR ''/'' \<notin> set (str_json E lon) \<Longrightarrow>
   CHR ''/'' \<notin> set (filename_of E lat lon Head)"
  by (simp add: filename_of_def str_int_no_slash)

lemma os_path_join_inside:
  "CHR ''/'' \<notin> set name \<Longrightarrow> os_path_join SaveLoc name = SaveLoc @ dir_sep SaveLoc @ name"
  by (cases name) (auto simp: os_path_join_def dir_sep_def)

text \<open>
  Claim C6, as stated, fails for the directory: the path written is
  \<^verbatim>\<open>os.path.join(SaveLoc, filename)\<close>, and a file name that begins with a slash
  replaces the directory. The provider answers with the latitude \<^verbatim>\<open>"/tmp/x"\<close>; the
  fetch succeeds and writes \<^verbatim>\<open>/tmp/x_2_92.jpg\<close>, not a file in \<^verbatim>\<open>./out\<close>.
\<close>

theorem GetStreetLL_counterexample:
  "GetStreetLL (answering slash_document) (default_settings None) 10 1 92 ''./out'' 3 initial_state =
     ((Some (JNull, JStr ''abc'', JStr ''/tmp/x'', JInt 2, ''/tmp/x_2_92.jpg''), 1),
      initial_state\<lparr>clock := 2, files := [''/tmp/x_2_92.jpg'']\<rparr>)"
proof -
  have p: "parse_document slash_document = Some (JNull, JStr ''abc'', JStr ''/tmp/x'', JInt 2)"
    by (simp add: slash_document_def parse_document_def dict_get_def)
  have f: "filename_of (answering slash_document) (JStr ''/tmp/x'') (JInt 2) 92 = ''/tmp/x_2_92.jpg''"
    by (simp add: filename_of_def answering_def mock_env_def mock_str_json_def str_int_mock)
  have j: "os_path_join ''./out'' ''/tmp/x_2_92.jpg'' = ''/tmp/x_2_92.jpg''"
    by (simp add: os_path_join_def)
  have u: "urlretrieve (answering slash_document) t u p = Saved" for t u p
    by (simp add: answering_def mock_env_def)
  show ?thesis
    by (simp add: GetStreetLL_def eval_nat_numeral answering_MetaParse p f j u tick_def
          initial_state_def Let_def)
qed

text \<open>
  Claim C6, amended. A fetch that returns the success flag 1 returns a ledger entry whose
  date, panorama id, latitude and longitude are those the validator returned at some time
  of the call, with a panorama id that counts as true; the file name is the validated
  latitude, the validated longitude and the requested heading, joined by underscores and
  followed by \<^verbatim>\<open>.jpg\<close>; and the fetch wrote exactly one path, that file name joined to
  the output directory by \<^verbatim>\<open>os.path.join\<close>. Whenever the texts of the validated
  latitude and longitude hold no slash, as the text of a number does, the file name
  holds none either, and the path is the output directory, its separator and the file
  name: the file is in the output directory.
\<close>

theorem GetStreetLL_success:
  assumes "GetStreetLL E G Lat Lon Head SaveLoc retries s = ((image_metadata, 1), s')"
  shows "\<exists>date pano_id lat lon t name.
           name = str_json E lat @ ''_'' @ str_json E lon @ ''_'' @ str_int Head @ ''.jpg'' \<and>
           image_metadata = Some (date, pano_id, lat, lon, name) \<and>
           files s' = files s @ [os_path_join SaveLoc name] \<and>
           clock s \<le> t \<and>
           fst (MetaParse E (MetaUrl_of E G Lat Lon Head) (s\<lparr>clock := t\<rparr>))
             = Some (date, pano_id, lat, lon) \<and>
           truthy pano_id \<and>
           (CHR ''/'' \<notin> set (str_json E lat) \<and> CHR ''/'' \<notin> set (str_json E lon) \<longrightarrow>
              CHR ''/'' \<notin> set name \<and> files s' = files s @ [SaveLoc @ dir_sep SaveLoc @ name])"
proof -
  from assms have "retry_loop E (MyUrl_of E G Lat Lon Head) (MetaUrl_of E G Lat Lon Head) Head SaveLoc
      (nat retries) s = ((image_metadata, 1), s')"
    by (simp add: GetStreetLL_def)
  then have "(image_metadata = None \<and> (1::int) = 0) \<or>
      (\<exists>im. image_metadata = Some im \<and> (1::int) = 1 \<and>
         fetched E (MetaUrl_of E G Lat Lon Head) Head SaveLoc s im s')"
    by (rule retry_loop_result)
  then obtain im where im: "image_metadata = Some im"
      "fetched E (MetaUrl_of E G Lat Lon Head) Head SaveLoc s im s'"
    by auto
  from im(2) obtain date pano_id lat lon t where f:
    "im = (date, pano_id, lat, lon, filename_of E lat lon Head)"
    "files s' = files s @ [os_path_join SaveLoc (filename_of E lat lon Head)]"
    "clock s \<le> t"
    "fst (MetaParse E (MetaUrl_of E G Lat Lon Head) (s\<lparr>clock := t\<rparr>)) = Some (date, pano_id, lat, lon)"
    "truthy pano_id"
    unfolding fetched_def by (elim exE conjE)
  have inside: "CHR ''/'' \<notin> set (filename_of E lat lon Head) \<and>
      files s' = files s @ [SaveLoc @ dir_sep SaveLoc @ filename_of E lat lon Head]"
    if "CHR ''/'' \<notin> set (str_json E lat) \<and> CHR ''/'' \<notin> set (str_json E lon)"
  proof -
    from that have n: "CHR ''/'' \<notin> set (filename_of E lat lon Head)"
      by (simp add: filename_no_slash)
    with f(2) show ?thesis by (simp add: os_path_join_inside)
  qed
  have name: "filename_of E lat lon Head
      = str_json E lat @ ''_'' @ str_json E lon @ ''_'' @ str_int Head @ ''.jpg''"
    by (simp add: filename_of_def)
  show ?thesis
    using im(1) f inside unfolding name
    by (intro exI [of _ date] exI [of _ pano_id] exI [of _ lat] exI [of _ lon] exI [of _ t]
          exI [of _ "str_json E lat @ ''_'' @ str_json E lon @ ''_'' @ str_int Head @ ''.jpg''"])
       simp
qed

theorem GetStreetLL_success_witness:
  "GetStreetLL mock_env (default_settings None) 10 1 92 ''./out'' 3 initial_state =
     ((Some (JStr ''2021-06'', JStr ''abc'', JInt 48, JInt 2, ''48_2_92.jpg''), 1),
      initial_state\<lparr>clock := 2, files := [''./out/48_2_92.jpg'']\<rparr>) \<and>
   CHR ''/'' \<notin> set (str_json mock_env (JInt 48)) \<and>
   CHR ''/'' \<notin> set (str_json mock_env (JInt 2)) \<and>
   ''48_2_92.jpg'' = str_json mock_env (JInt 48) @ ''_'' @ str_json mock_env (JInt 2) @ ''_''
      @ str_int 92 @ ''.jpg'' \<and>
   CHR ''/'' \<notin> set ''48_2_92.jpg'' \<and>
   files (initial_state\<lparr>clock := 2, files := [''./out/48_2_92.jpg'']\<rparr>) =
     files initial_state @ [''./out'' @ dir_sep ''./out'' @ ''48_2_92.jpg''] \<and>
   (\<exists>t. clock initial_state \<le> t \<and>
      fst (MetaParse mock_env (MetaUrl_of mock_env (default_settings None) 10 1 92)
             (initial_state\<lparr>clock := t\<rparr>))
        = Some (JStr ''2021-06'', JStr ''abc'', JInt 48, JInt 2))"
proof -
  have r: "str_json mock_env (JInt 48) = ''48''" "str_json mock_env (JInt 2) = ''2''"
    by (simp_all add: mock_env_def mock_str_json_def str_int_mock)
  from GetStreetLL_success [OF mock_fetch]
  obtain date pano_id lat lon t name where w:
    "name = str_json mock_env lat @ ''_'' @ str_json mock_env lon @ ''_'' @ str_int 92 @ ''.jpg''"
    "Some (JStr ''2021-06'', JStr ''abc'', JInt 48, JInt 2, ''48_2_92.jpg'')
       = Some (date, pano_id, lat, lon, name)"
    "clock initial_state \<le> t"
    "fst (MetaParse mock_env (MetaUrl_of mock_env (default_settings None) 10 1 92)
            (initial_state\<lparr>clock := t\<rparr>)) = Some (date, pano_id, lat, lon)"
    "CHR ''/'' \<notin> set (str_json mock_env lat) \<and> CHR ''/'' \<notin> set (str_json mock_env lon) \<longrightarrow>
       CHR ''/'' \<notin> set name \<and>
       files (initial_state\<lparr>clock := 2, files := [''./out/48_2_92.jpg'']\<rparr>)
         = files initial_state @ [''./out'' @ dir_sep ''./out'' @ name]"
    by blast
  from w(2) have e: "date = JStr ''2021-06''" "pano_id = JStr ''abc''" "lat = JInt 48"
    "lon = JInt 2" "name = ''48_2_92.jpg''"
    by simp_all
  from w(5) have inside: "CHR ''/'' \<notin> set ''48_2_92.jpg'' \<and>
       files (initial_state\<lparr>clock := 2, files := [''./out/48_2_92.jpg'']\<rparr>)
         = files initial_state @ [''./out'' @ dir_sep ''./out'' @ ''48_2_92.jpg'']"
    unfolding e r by simp
  have nm: "''48_2_92.jpg'' = str_json mock_env (JInt 48) @ ''_'' @ str_json mock_env (JInt 2) @ ''_''
      @ str_int 92 @ ''.jpg''"
    using w(1) unfolding e .
  have sl: "CHR ''/'' \<notin> set (str_json mock_env (JInt 48))" "CHR ''/'' \<notin> set (str_json mock_env (JInt 2))"
    unfolding r by simp_all
  have v: "\<exists>t. clock initial_state \<le> t \<and>
      fst (MetaParse mock_env (MetaUrl_of mock_env (default_settings None) 10 1 92)
             (initial_state\<lparr>clock := t\<rparr>))
        = Some (JStr ''2021-06'', JStr ''abc'', JInt 48, JInt 2)"
    using w(3,4) unfolding e by blast
  from mock_fetch sl nm inside v show ?thesis by (intro conjI) simp_all
qed

subsection \<open>The geometry cache\<close>

lemma regions_loop_region_of:
  "regions_loop E country idx s =
     (case region_of idx country of
        None \<Rightarrow> (Inl (not_found_in_any_region country), s)
      | Some region \<Rightarrow> load_region E region s)"
  by (induction idx) auto

lemma region_of_None: "region_of idx country = None \<longleftrightarrow> country \<notin> (\<Union>(region, countries) \<in> set idx. set countries)"
  by (induction idx) (auto split: if_splits)

lemma messages_differ: "not_found_in_any_region country \<noteq> shapefile_path_not_found region"
proof
  assume "not_found_in_any_region country = shapefile_path_not_found region"
  then have "rev (country @ '' not found in any region.'') = rev (''Shapefile path for '' @ region @ '' not found.'')"
    by (simp add: not_found_in_any_region_def shapefile_path_not_found_def)
  then show False by simp
qed

lemma table_paths: "map_of region_shp_paths region = Some path \<Longrightarrow> path \<noteq> []"
  by (auto simp: region_shp_paths_def split: if_splits)

lemma load_region_error:
  "fst (load_region E region s) = Inl e \<Longrightarrow>
   e \<noteq> not_found_in_any_region country \<and> gdf_cache (snd (load_region E region s)) = gdf_cache s"
  using messages_differ [of country region]
  by (auto simp: load_region_def not_found_in_any_region_def split: option.splits if_splits sum.splits)

lemma load_region_cached:
  "gdf_cache s region = Some g \<Longrightarrow> load_region E region s = (Inr g, s)"
  by (simp add: load_region_def)

lemma load_region_keeps:
  "gdf_cache s region = Some g \<Longrightarrow> gdf_cache (snd (load_region E region' s)) region = Some g"
  by (auto simp: load_region_def split: option.splits sum.splits)

lemma load_region_caches:
  "load_region E region s = (Inr g, s1) \<Longrightarrow> gdf_cache s1 region = Some g"
  by (auto simp: load_region_def split: option.splits sum.splits if_splits)

lemma load_keeps:
  "gdf_cache s region = Some g \<Longrightarrow>
   gdf_cache (snd (load_shapefile_for_country E country s)) region = Some g"
  by (simp add: load_shapefile_for_country_def regions_loop_region_of load_region_keeps
        split: option.splits)

lemma resolve_calls_keep:
  "gdf_cache s region = Some g \<Longrightarrow> gdf_cache (resolve_calls E cs s) region = Some g"
  by (induction cs arbitrary: s) (simp_all add: load_keeps)

lemma load_region_first:
  "load_region E region s = (Inr g, s1) \<Longrightarrow>
   (gdf_cache s region = None \<longrightarrow>
      (\<exists>path. map_of region_shp_paths region = Some path \<and>
         read_dataframe E (clock s) path = Inr g \<and> loads s1 = loads s @ [path])) \<and>
   (gdf_cache s region \<noteq> None \<longrightarrow> s1 = s)"
  by (auto simp: load_region_def split: option.splits sum.splits if_splits)

lemma load_region_loads:
  "loads (snd (load_region E region s)) = loads s \<or>
   (gdf_cache s region = None \<and>
    (\<exists>path. map_of region_shp_paths region = Some path \<and>
       loads (snd (load_region E region s)) = loads s @ [path]))"
  by (auto simp: load_region_def split: option.splits sum.splits if_splits)

lemma table_inj:
  "map_of region_shp_paths region = Some path \<Longrightarrow>
   map_of region_shp_paths region' = Some path \<Longrightarrow> region = region'"
  by (auto simp: region_shp_paths_def split: if_splits)

lemma load_region_count:
  assumes "gdf_cache s region = Some g" and "map_of region_shp_paths region = Some path"
  shows "count_list (loads (snd (load_region E region' s))) path = count_list (loads s) path"
proof -
  from load_region_loads [of E region' s]
  show ?thesis
  proof
    assume "loads (snd (load_region E region' s)) = loads s"
    then show ?thesis by simp
  next
    assume "gdf_cache s region' = None \<and>
      (\<exists>path'. map_of region_shp_paths region' = Some path' \<and>
         loads (snd (load_region E region' s)) = loads s @ [path'])"
    then obtain path' where p: "gdf_cache s region' = None"
        "map_of region_shp_paths region' = Some path'"
        "loads (snd (load_region E region' s)) = loads s @ [path']"
      by blast
    from p(1) assms(1) have "region \<noteq> region'" by auto
    with assms(2) p(2) have "path' \<noteq> path" using table_inj by blast
    with p(3) show ?thesis by simp
  qed
qed

lemma load_count:
  assumes "gdf_cache s region = Some g" and "map_of region_shp_paths region = Some path"
  shows "count_list (loads (snd (load_shapefile_for_country E country s))) path
           = count_list (loads s) path"
  using load_region_count [OF assms]
  by (simp add: load_shapefile_for_country_def regions_loop_region_of split: option.splits)

lemma resolve_calls_count:
  "gdf_cache s region = Some g \<Longrightarrow> map_of region_shp_paths region = Some path \<Longrightarrow>
   count_list (loads (resolve_calls E cs s)) path = count_list (loads s) path"
proof (induction cs arbitrary: s)
  case (Cons country cs)
  let ?s1 = "snd (load_shapefile_for_country E country s)"
  have "gdf_cache ?s1 region = Some g" using Cons.prems(1) by (rule load_keeps)
  then have "count_list (loads (resolve_calls E cs ?s1)) path = count_list (loads ?s1) path"
    using Cons.prems(2) by (rule Cons.IH)
  with load_count [OF Cons.prems, of E country] show ?case by simp
qed simp

text \<open>
  Claim C7, as stated, fails when the load fails: a call for a country of the index then
  returns no dataset, nothing is cached, and the next call for the same country invokes
  the loader again. With a loader that always fails, two calls for France load the
  source of Region 4 twice.
\<close>

theorem cache_counterexample:
  "region_of (regions_to_countries_dict failing_loads) ''France'' = Some ''Region 4'' \<and>
   fst (load_shapefile_for_country failing_loads ''France'' initial_state)
     = Inl (LoadError ''No such file or directory'') \<and>
   loads (resolve_calls failing_loads [''France'', ''France''] initial_state)
     = [''./GRIP4/GRIP4_Region4_vector_shp/GRIP4_region4.shp'',
        ''./GRIP4/GRIP4_Region4_vector_shp/GRIP4_region4.shp'']"
proof -
  have rd: "read_dataframe failing_loads t p = Inl ''No such file or directory''" for t p
    by (simp add: failing_loads_def)
  have l: "load_shapefile_for_country failing_loads ''France'' s =
      (Inl (LoadError ''No such file or directory''),
       s\<lparr>clock := Suc (clock s),
         loads := loads s @ [''./GRIP4/GRIP4_Region4_vector_shp/GRIP4_region4.shp'']\<rparr>)"
    if "gdf_cache s ''Region 4'' = None" for s
    using that
    by (simp add: load_shapefile_for_country_def regions_loop_region_of mock_region_of
          load_region_def mock_table rd)
  have c: "gdf_cache initial_state ''Region 4'' = None" by (simp add: initial_state_def)
  have l1: "load_shapefile_for_country failing_loads ''France'' initial_state =
      (Inl (LoadError ''No such file or directory''),
       initial_state\<lparr>clock := Suc (clock initial_state),
         loads := loads initial_state @ [''./GRIP4/GRIP4_Region4_vector_shp/GRIP4_region4.shp'']\<rparr>)"
    using c by (rule l)
  have l2: "load_shapefile_for_country failing_loads ''France''
      (initial_state\<lparr>clock := Suc (clock initial_state),
         loads := loads initial_state @ [''./GRIP4/GRIP4_Region4_vector_shp/GRIP4_region4.shp'']\<rparr>) =
      (Inl (LoadError ''No such file or directory''),
       initial_state\<lparr>clock := Suc (clock initial_state),
         loads := loads initial_state @ [''./GRIP4/GRIP4_Region4_vector_shp/GRIP4_region4.shp'']\<rparr>
        \<lparr>clock := Suc (clock (initial_state\<lparr>clock := Suc (clock initial_state),
            loads := loads initial_state @ [''./GRIP4/GRIP4_Region4_vector_shp/GRIP4_region4.shp'']\<rparr>)),
         loads := loads (initial_state\<lparr>clock := Suc (clock initial_state),
            loads := loads initial_state @ [''./GRIP4/GRIP4_Region4_vector_shp/GRIP4_region4.shp'']\<rparr>)
            @ [''./GRIP4/GRIP4_Region4_vector_shp/GRIP4_region4.shp'']\<rparr>)"
    by (rule l) (simp add: c)
  have "loads (resolve_calls failing_loads [''France'', ''France''] initial_state)
     = [''./GRIP4/GRIP4_Region4_vector_shp/GRIP4_region4.shp'',
        ''./GRIP4/GRIP4_Region4_vector_shp/GRIP4_region4.shp'']"
    by (simp add: l1 l2) (simp add: initial_state_def)
  with mock_region_of(3) l1 show ?thesis by simp
qed

text \<open>
  Claim C7, amended. Take a country of the index whose region is cached, or is not cached
  but has a path from which the loader returns a dataset. The call for the country
  returns that dataset and leaves it cached under the region: a cached region changes
  nothing, an uncached one invokes the loader once. After any further calls of the
  cache, the source of the region has been loaded no more often than before them, and a
  call for any country of the same region returns the same dataset and leaves the state
  as it is, the list of loads included: the loader is not invoked again.
\<close>

theorem cache_hit_after_load:
  assumes "region_of (regions_to_countries_dict E) country = Some region"
    and "region_of (regions_to_countries_dict E) country' = Some region"
    and "gdf_cache s region = Some g \<or>
         (gdf_cache s region = None \<and> map_of region_shp_paths region = Some path \<and>
          read_dataframe E (clock s) path = Inr g)"
  shows "\<exists>s1. load_shapefile_for_country E country s = (Inr g, s1) \<and>
           gdf_cache s1 region = Some g \<and>
           (if gdf_cache s region = None then loads s1 = loads s @ [path] else s1 = s) \<and>
           (\<forall>p. map_of region_shp_paths region = Some p \<longrightarrow>
              count_list (loads (resolve_calls E cs s1)) p = count_list (loads s1) p) \<and>
           load_shapefile_for_country E country' (resolve_calls E cs s1)
             = (Inr g, resolve_calls E cs s1)"
proof -
  obtain s1 where l: "load_region E region s = (Inr g, s1)"
    and first: "if gdf_cache s region = None then loads s1 = loads s @ [path] else s1 = s"
    using assms(3) table_paths [of region path]
    by (auto simp: load_region_def)
  from assms(1) l have r: "load_shapefile_for_country E country s = (Inr g, s1)"
    by (simp add: load_shapefile_for_country_def regions_loop_region_of)
  from l have c: "gdf_cache s1 region = Some g" by (rule load_region_caches)
  then have "gdf_cache (resolve_calls E cs s1) region = Some g" by (rule resolve_calls_keep)
  then have "load_region E region (resolve_calls E cs s1) = (Inr g, resolve_calls E cs s1)"
    by (rule load_region_cached)
  with assms(2) have again: "load_shapefile_for_country E country' (resolve_calls E cs s1)
           = (Inr g, resolve_calls E cs s1)"
    by (simp add: load_shapefile_for_country_def regions_loop_region_of)
  have once: "\<forall>p. map_of region_shp_paths region = Some p \<longrightarrow>
              count_list (loads (resolve_calls E cs s1)) p = count_list (loads s1) p"
    using resolve_calls_count [OF c] by blast
  from r c first once again show ?thesis by blast
qed

theorem cache_hit_after_load_witness:
  "region_of (regions_to_countries_dict mock_env) ''France'' = Some ''Region 4'' \<and>
   region_of (regions_to_countries_dict mock_env) ''Spain'' = Some ''Region 4'' \<and>
   gdf_cache initial_state ''Region 4'' = None \<and>
   map_of region_shp_paths ''Region 4''
     = Some ''./GRIP4/GRIP4_Region4_vector_shp/GRIP4_region4.shp'' \<and>
   read_dataframe mock_env (clock initial_state)
     ''./GRIP4/GRIP4_Region4_vector_shp/GRIP4_region4.shp'' = Inr mock_gdf \<and>
   (\<exists>s1. load_shapefile_for_country mock_env ''France'' initial_state = (Inr mock_gdf, s1) \<and>
      gdf_cache s1 ''Region 4'' = Some mock_gdf \<and>
      loads s1 = loads initial_state @ [''./GRIP4/GRIP4_Region4_vector_shp/GRIP4_region4.shp''] \<and>
      count_list (loads (resolve_calls mock_env [''Spain'', ''Canada'', ''France''] s1))
          ''./GRIP4/GRIP4_Region4_vector_shp/GRIP4_region4.shp''
        = count_list (loads s1) ''./GRIP4/GRIP4_Region4_vector_shp/GRIP4_region4.shp'' \<and>
      load_shapefile_for_country mock_env ''Spain''
          (resolve_calls mock_env [''Spain'', ''Canada'', ''France''] s1)
        = (Inr mock_gdf, resolve_calls mock_env [''Spain'', ''Canada'', ''France''] s1))"
proof -
  have c: "gdf_cache initial_state ''Region 4'' = None" by (simp add: initial_state_def)
  have rd: "read_dataframe mock_env (clock initial_state)
     ''./GRIP4/GRIP4_Region4_vector_shp/GRIP4_region4.shp'' = Inr mock_gdf"
    by (simp add: mock_env_def)
  have h: "gdf_cache initial_state ''Region 4'' = Some mock_gdf \<or>
         (gdf_cache initial_state ''Region 4'' = None \<and>
          map_of region_shp_paths ''Region 4''
            = Some ''./GRIP4/GRIP4_Region4_vector_shp/GRIP4_region4.shp'' \<and>
          read_dataframe mock_env (clock initial_state)
            ''./GRIP4/GRIP4_Region4_vector_shp/GRIP4_region4.shp'' = Inr mock_gdf)"
    using c mock_table(1) rd by blast
  from cache_hit_after_load [OF mock_region_of(1) mock_region_of(2) h,
      of "[''Spain'', ''Canada'', ''France'']"] c mock_table(1)
  have "\<exists>s1. load_shapefile_for_country mock_env ''France'' initial_state = (Inr mock_gdf, s1) \<and>
      gdf_cache s1 ''Region 4'' = Some mock_gdf \<and>
      loads s1 = loads initial_state @ [''./GRIP4/GRIP4_Region4_vector_shp/GRIP4_region4.shp''] \<and>
      count_list (loads (resolve_calls mock_env [''Spain'', ''Canada'', ''France''] s1))
          ''./GRIP4/GRIP4_Region4_vector_shp/GRIP4_region4.shp''
        = count_list (loads s1) ''./GRIP4/GRIP4_Region4_vector_shp/GRIP4_region4.shp'' \<and>
      load_shapefile_for_country mock_env ''Spain''
          (resolve_calls mock_env [''Spain'', ''Canada'', ''France''] s1)
        = (Inr mock_gdf, resolve_calls mock_env [''Spain'', ''Canada'', ''France''] s1)"
    by (elim exE conjE) (auto simp only: if_True)
  with mock_region_of(1,2) c mock_table(1) rd show ?thesis by (intro conjI)
qed

text \<open>
  Claim C8. The call raises \<^verbatim>\<open>ValueError\<close> with the message "not found in any region"
  exactly when no item of the index lists the country. For a country whose region is not
  cached, it raises \<^verbatim>\<open>ValueError\<close> with the message "Shapefile path ... not found"
  when the table has no path for the region, and the exception of the loader when the
  load fails. Whatever it raises, the cache is as it was.
\<close>

theorem load_errors:
  "(fst (load_shapefile_for_country E country s) = Inl (not_found_in_any_region country) \<longleftrightarrow>
      country \<notin> (\<Union>(region, countries) \<in> set (regions_to_countries_dict E). set countries)) \<and>
   (region_of (regions_to_countries_dict E) country = Some region \<and> gdf_cache s region = None \<and>
    map_of region_shp_paths region = None \<longrightarrow>
      load_shapefile_for_country E country s = (Inl (shapefile_path_not_found region), s)) \<and>
   (region_of (regions_to_countries_dict E) country = Some region \<and> gdf_cache s region = None \<and>
    map_of region_shp_paths region = Some path \<and> read_dataframe E (clock s) path = Inl msg \<longrightarrow>
      fst (load_shapefile_for_country E country s) = Inl (LoadError msg)) \<and>
   (fst (load_shapefile_for_country E country s) = Inl e \<longrightarrow>
      gdf_cache (snd (load_shapefile_for_country E country s)) = gdf_cache s)"
proof (intro conjI impI)
  show "fst (load_shapefile_for_country E country s) = Inl (not_found_in_any_region country) \<longleftrightarrow>
      country \<notin> (\<Union>(region, countries) \<in> set (regions_to_countries_dict E). set countries)"
  proof (cases "region_of (regions_to_countries_dict E) country")
    case None
    then show ?thesis
      using region_of_None [of "regions_to_countries_dict E" country]
      by (simp add: load_shapefile_for_country_def regions_loop_region_of)
  next
    case (Some region)
    then have "fst (load_shapefile_for_country E country s) \<noteq> Inl (not_found_in_any_region country)"
      using load_region_error [of E region s "not_found_in_any_region country" country]
      by (auto simp: load_shapefile_for_country_def regions_loop_region_of)
    then show ?thesis
      using Some region_of_None [of "regions_to_countries_dict E" country] by simp
  qed
next
  assume "region_of (regions_to_countries_dict E) country = Some region \<and> gdf_cache s region = None \<and>
    map_of region_shp_paths region = None"
  then show "load_shapefile_for_country E country s = (Inl (shapefile_path_not_found region), s)"
    by (simp add: load_shapefile_for_country_def regions_loop_region_of load_region_def)
next
  assume a: "region_of (regions_to_countries_dict E) country = Some region \<and> gdf_cache s region = None \<and>
    map_of region_shp_paths region = Some path \<and> read_dataframe E (clock s) path = Inl msg"
  then have "path \<noteq> []" using table_paths by blast
  with a show "fst (load_shapefile_for_country E country s) = Inl (LoadError msg)"
    by (simp add: load_shapefile_for_country_def regions_loop_region_of load_region_def)
next
  assume a: "fst (load_shapefile_for_country E country s) = Inl e"
  show "gdf_cache (snd (load_shapefile_for_country E country s)) = gdf_cache s"
  proof (cases "region_of (regions_to_countries_dict E) country")
    case None
    then show ?thesis by (simp add: load_shapefile_for_country_def regions_loop_region_of)
  next
    case (Some region)
    with a show ?thesis using load_region_error [of E region s e country]
      by (simp add: load_shapefile_for_country_def regions_loop_region_of)
  qed
qed

theorem load_errors_witness:
  "''Atlantis'' \<notin> (\<Union>(region, countries) \<in> set (regions_to_countries_dict mock_env). set countries) \<and>
   fst (load_shapefile_for_country mock_env ''Atlantis'' initial_state)
     = Inl (not_found_in_any_region ''Atlantis'') \<and>
   region_of (regions_to_countries_dict unmapped_region_env) ''Mars'' = Some ''Region 9'' \<and>
   gdf_cache initial_state ''Region 9'' = None \<and>
   map_of region_shp_paths ''Region 9'' = None \<and>
   load_shapefile_for_country unmapped_region_env ''Mars'' initial_state
     = (Inl (shapefile_path_not_found ''Region 9''), initial_state) \<and>
   region_of (regions_to_countries_dict failing_loads) ''France'' = Some ''Region 4'' \<and>
   gdf_cache initial_state ''Region 4'' = None \<and>
   map_of region_shp_paths ''Region 4''
     = Some ''./GRIP4/GRIP4_Region4_vector_shp/GRIP4_region4.shp'' \<and>
   read_dataframe failing_loads (clock initial_state)
      ''./GRIP4/GRIP4_Region4_vector_shp/GRIP4_region4.shp'' = Inl ''No such file or directory'' \<and>
   fst (load_shapefile_for_country failing_loads ''France'' initial_state)
     = Inl (LoadError ''No such file or directory'') \<and>
   gdf_cache (snd (load_shapefile_for_country failing_loads ''France'' initial_state))
     = gdf_cache initial_state"
proof -
  have a: "''Atlantis'' \<notin> (\<Union>(region, countries) \<in> set (regions_to_countries_dict mock_env). set countries)"
    by (simp add: mock_env_def)
  have c9: "gdf_cache initial_state ''Region 9'' = None" "gdf_cache initial_state ''Region 4'' = None"
    by (simp_all add: initial_state_def)
  have rd: "read_dataframe failing_loads (clock initial_state)
      ''./GRIP4/GRIP4_Region4_vector_shp/GRIP4_region4.shp'' = Inl ''No such file or directory''"
    by (simp add: failing_loads_def)
  note unknown = load_errors [of mock_env "''Atlantis''" initial_state]
  note nopath = load_errors [of unmapped_region_env "''Mars''" initial_state "''Region 9''"]
  note failed = load_errors [of failing_loads "''France''" initial_state "''Region 4''"
      "''./GRIP4/GRIP4_Region4_vector_shp/GRIP4_region4.shp''" "''No such file or directory''"
      "LoadError ''No such file or directory''"]
  have r1: "fst (load_shapefile_for_country mock_env ''Atlantis'' initial_state)
     = Inl (not_found_in_any_region ''Atlantis'')"
    using unknown a by blast
  have r2: "load_shapefile_for_country unmapped_region_env ''Mars'' initial_state
     = (Inl (shapefile_path_not_found ''Region 9''), initial_state)"
    using nopath mock_region_of(4) c9(1) mock_table(2) by blast
  have r3: "fst (load_shapefile_for_country failing_loads ''France'' initial_state)
     = Inl (LoadError ''No such file or directory'')"
    using failed mock_region_of(3) c9(2) mock_table(1) rd by blast
  have r4: "gdf_cache (snd (load_shapefile_for_country failing_loads ''France'' initial_state))
     = gdf_cache initial_state"
    using failed r3 by blast
  show ?thesis
    using a r1 mock_region_of(3,4) c9 mock_table rd r2 r3 r4 by blast
qed

subsection \<open>The acquisition driver\<close>

lemma retry_loop_flag:
  "retry_loop E MyUrl MetaUrl Head SaveLoc n s = ((image_metadata, flag), s') \<Longrightarrow>
   0 \<le> flag \<and> flag \<le> 1"
  using retry_loop_result [of E MyUrl MetaUrl Head SaveLoc n s image_metadata flag s'] by auto

lemma dispatch_bounds:
  "dispatch E G save_dir data_list images s = (images', s') \<Longrightarrow>
   images \<le> images' \<and> images' \<le> images + int (length data_list)"
proof (induction data_list arbitrary: images s)
  case (Cons p data_list)
  obtain lat lon head where p: "p = (lat, lon, head)" by (cases p)
  obtain im n s1 where f: "GetStreetLL E G lat lon head save_dir default_retries s = ((im, n), s1)"
    by (metis surj_pair)
  then have n: "0 \<le> n \<and> n \<le> 1" unfolding GetStreetLL_def by (rule retry_loop_flag)
  from Cons.prems p f
  have "dispatch E G save_dir data_list (images + n)
          (case im of None \<Rightarrow> s1 | Some m \<Rightarrow> s1\<lparr>image_list := image_list s1 @ [m]\<rparr>) = (images', s')"
    by simp
  then have "images + n \<le> images' \<and> images' \<le> images + n + int (length data_list)"
    by (rule Cons.IH)
  with n show ?case by simp
qed simp

lemma download_loop_returns:
  assumes "download_loop E G g target save_dir images s = Some y"
  shows "\<forall>n s'. y = (Inr n, s') \<longrightarrow> 0 \<le> images \<longrightarrow>
           images \<le> n \<and>
           (target * 4 \<le> n \<or> (\<exists>s0. generate_ll E g (target - n div 4) s0 = (Inr [], s')))"
  using assms
proof (induction rule: download_loop.raw_induct [rotated -1, consumes 1, case_names step])
  case (step loop E G g target save_dir images s y)
  show ?case
  proof (intro allI impI)
    fix n s'
    assume y: "y = (Inr n, s')" and nonneg: "0 \<le> images"
    show "images \<le> n \<and>
           (target * 4 \<le> n \<or> (\<exists>s0. generate_ll E g (target - n div 4) s0 = (Inr [], s')))"
    proof (cases "images < target * 4")
      case False
      with step.hyps y show ?thesis by simp
    next
      case True
      obtain r s1 where gen: "generate_ll E g (target - images div 4) s = (r, s1)"
        by (metis surj_pair)
      have budget: "int_truediv images 4 = images div 4"
        using nonneg by (rule int_truediv_nonneg)
      show ?thesis
      proof (cases r)
        case (Inl e)
        with step.hyps y True gen budget show ?thesis by simp
      next
        case (Inr data_list)
        show ?thesis
        proof (cases "data_list = []")
          case True
          with step.hyps y \<open>images < target * 4\<close> gen budget Inr
          have "n = images" "s' = s1" by simp_all
          with gen Inr True show ?thesis by auto
        next
          case False
          show ?thesis
          proof (cases "num_workers G \<le> 0")
            case True
            with step.hyps y \<open>images < target * 4\<close> gen budget Inr False show ?thesis by simp
          next
            case workers: False
            obtain images' s2 where d: "dispatch E G save_dir data_list images s1 = (images', s2)"
              by (metis surj_pair)
            with step.hyps \<open>images < target * 4\<close> gen budget Inr False workers
            have "loop E G g target save_dir images' s2 = Some y" by simp
            then have ih: "\<forall>n s'. y = (Inr n, s') \<longrightarrow> 0 \<le> images' \<longrightarrow>
                images' \<le> n \<and>
                (target * 4 \<le> n \<or> (\<exists>s0. generate_ll E g (target - n div 4) s0 = (Inr [], s')))"
              by (rule step.IH)
            from d have "images \<le> images'" using dispatch_bounds by blast
            with ih y nonneg show ?thesis by force
          qed
        qed
      qed
    qed
  qed
qed

text \<open>
  Claim C3. With a tally that is not negative, the loop does one of three things. When
  the tally has reached four times the target it returns the tally, without asking the
  sampler. Otherwise it asks the sampler for \<open>target - images div 4\<close> points; when the
  sampler returns the empty sequence it returns the tally, as a result and not as an
  exception; when the sampler returns points (and the pool has a worker) it dispatches
  them and goes on as the loop on the new tally, which is at least the old one and
  larger by at most the number of points. Conversely, whenever the loop returns a tally,
  the tally has reached four times the target or the sampler, asked for
  \<open>target - n div 4\<close> points, returned the empty sequence just before.
\<close>

theorem download_loop_rounds:
  "(\<not> images < target * 4 \<longrightarrow>
      download_loop E G g target save_dir images s = Some (Inr images, s)) \<and>
   (0 \<le> images \<and> images < target * 4 \<and>
    generate_ll E g (target - images div 4) s = (Inr [], s1) \<longrightarrow>
      download_loop E G g target save_dir images s = Some (Inr images, s1)) \<and>
   (0 \<le> images \<and> images < target * 4 \<and>
    generate_ll E g (target - images div 4) s = (Inr data_list, s1) \<and> data_list \<noteq> [] \<and>
    0 < num_workers G \<and> dispatch E G save_dir data_list images s1 = (images', s2) \<longrightarrow>
      download_loop E G g target save_dir images s = download_loop E G g target save_dir images' s2 \<and>
      images \<le> images' \<and> images' \<le> images + int (length data_list)) \<and>
   (0 \<le> images \<and> download_loop E G g target save_dir images s = Some (Inr n, s') \<longrightarrow>
      images \<le> n \<and>
      (target * 4 \<le> n \<or> (\<exists>s0. generate_ll E g (target - n div 4) s0 = (Inr [], s'))))"
proof (intro conjI impI)
  assume "\<not> images < target * 4"
  then show "download_loop E G g target save_dir images s = Some (Inr images, s)"
    by (subst download_loop.simps) simp
next
  assume a: "0 \<le> images \<and> images < target * 4 \<and>
    generate_ll E g (target - images div 4) s = (Inr [], s1)"
  then have "int_truediv images 4 = images div 4" by (simp add: int_truediv_nonneg)
  with a show "download_loop E G g target save_dir images s = Some (Inr images, s1)"
    by (subst download_loop.simps) simp
next
  assume a: "0 \<le> images \<and> images < target * 4 \<and>
    generate_ll E g (target - images div 4) s = (Inr data_list, s1) \<and> data_list \<noteq> [] \<and>
    0 < num_workers G \<and> dispatch E G save_dir data_list images s1 = (images', s2)"
  then have b: "int_truediv images 4 = images div 4" by (simp add: int_truediv_nonneg)
  from a b show "download_loop E G g target save_dir images s
      = download_loop E G g target save_dir images' s2"
    by (subst download_loop.simps) simp
  from a show "images \<le> images'" using dispatch_bounds by blast
  from a show "images' \<le> images + int (length data_list)" using dispatch_bounds by blast
next
  assume a: "0 \<le> images \<and> download_loop E G g target save_dir images s = Some (Inr n, s')"
  then have "\<forall>m t. (Inr n, s') = (Inr m, t) \<longrightarrow> 0 \<le> images \<longrightarrow>
           images \<le> m \<and>
           (target * 4 \<le> m \<or> (\<exists>s0. generate_ll E g (target - m div 4) s0 = (Inr [], t)))"
    using download_loop_returns [of E G g target save_dir images s "(Inr n, s')"] by blast
  with a show "images \<le> n" by blast
  from a \<open>\<forall>m t. _\<close> show "target * 4 \<le> n \<or> (\<exists>s0. generate_ll E g (target - n div 4) s0 = (Inr [], s'))"
    by blast
qed

lemma mock_generate_ll_2:
  "generate_ll mock_env mock_gdf 2 initial_state = (Inr (four_points 10 1), initial_state\<lparr>clock := 1\<rparr>)"
  by (simp add: generate_ll_def int_truediv_def gdf_sample_def mock_gdf_def mock_env_def
        initial_state_def)

theorem download_loop_rounds_witness:
  "\<not> (40::int) < 10 * 4 \<and>
   download_loop mock_env (default_settings None) mock_gdf 10 ''./out'' 40 initial_state
     = Some (Inr 40, initial_state) \<and>
   (0::int) \<le> 36 \<and> (36::int) < 10 * 4 \<and>
   generate_ll mock_env mock_gdf (10 - 36 div 4) initial_state = (Inr [], initial_state) \<and>
   download_loop mock_env (default_settings None) mock_gdf 10 ''./out'' 36 initial_state
     = Some (Inr 36, initial_state) \<and>
   (0::int) \<le> 32 \<and> (32::int) < 10 * 4 \<and>
   generate_ll mock_env mock_gdf (10 - 32 div 4) initial_state
     = (Inr (four_points 10 1), initial_state\<lparr>clock := 1\<rparr>) \<and>
   four_points 10 1 \<noteq> [] \<and> 0 < num_workers (default_settings None) \<and>
   download_loop mock_env (default_settings None) mock_gdf 10 ''./out'' 32 initial_state
     = download_loop mock_env (default_settings None) mock_gdf 10 ''./out''
         (fst (dispatch mock_env (default_settings None) ''./out'' (four_points 10 1) 32
                 (initial_state\<lparr>clock := 1\<rparr>)))
         (snd (dispatch mock_env (default_settings None) ''./out'' (four_points 10 1) 32
                 (initial_state\<lparr>clock := 1\<rparr>))) \<and>
   32 \<le> fst (dispatch mock_env (default_settings None) ''./out'' (four_points 10 1) 32
                 (initial_state\<lparr>clock := 1\<rparr>)) \<and>
   fst (dispatch mock_env (default_settings None) ''./out'' (four_points 10 1) 32
                 (initial_state\<lparr>clock := 1\<rparr>)) \<le> 32 + int (length (four_points 10 1)) \<and>
   (36::int) \<le> 36 \<and>
   ((10::int) * 4 \<le> 36 \<or>
    (\<exists>s0. generate_ll mock_env mock_gdf (10 - 36 div 4) s0 = (Inr [], initial_state)))"
proof -
  let ?G = "default_settings None"
  let ?D = "dispatch mock_env ?G ''./out'' (four_points 10 1) 32 (initial_state\<lparr>clock := 1\<rparr>)"
  have g36: "generate_ll mock_env mock_gdf (10 - 36 div 4) initial_state = (Inr [], initial_state)"
    by (rule generate_ll_no_roads) (simp add: int_truediv_def)
  have g32: "generate_ll mock_env mock_gdf (10 - 32 div 4) initial_state
     = (Inr (four_points 10 1), initial_state\<lparr>clock := 1\<rparr>)"
    using mock_generate_ll_2 by simp
  have ne: "four_points 10 1 \<noteq> []" by (simp add: four_points_def)
  have w: "0 < num_workers ?G" by (simp add: default_settings_def)
  have d: "?D = (fst ?D, snd ?D)" by simp
  note full = download_loop_rounds [of 40 10 mock_env ?G mock_gdf "''./out''" initial_state]
  note empty = download_loop_rounds [of 36 10 mock_env ?G mock_gdf "''./out''" initial_state
      initial_state _ _ _ 36 initial_state]
  note round = download_loop_rounds [of 32 10 mock_env ?G mock_gdf "''./out''" initial_state
      "initial_state\<lparr>clock := 1\<rparr>" "four_points 10 1" "fst ?D" "snd ?D"]
  have r1: "download_loop mock_env ?G mock_gdf 10 ''./out'' 40 initial_state
     = Some (Inr 40, initial_state)"
    using full by simp
  have r2: "download_loop mock_env ?G mock_gdf 10 ''./out'' 36 initial_state
     = Some (Inr 36, initial_state)"
    using empty g36 by simp
  have r3: "download_loop mock_env ?G mock_gdf 10 ''./out'' 32 initial_state
     = download_loop mock_env ?G mock_gdf 10 ''./out'' (fst ?D) (snd ?D) \<and>
     32 \<le> fst ?D \<and> fst ?D \<le> 32 + int (length (four_points 10 1))"
    using round g32 ne w d by simp
  have r4: "(36::int) \<le> 36 \<and> ((10::int) * 4 \<le> 36 \<or>
    (\<exists>s0. generate_ll mock_env mock_gdf (10 - 36 div 4) s0 = (Inr [], initial_state)))"
    using empty r2 by simp
  show ?thesis using r1 r2 r3 r4 g36 g32 ne w by simp
qed

lemma always_succeeds_MetaParse:
  assumes "always_succeeds E"
  shows "\<exists>date pano_id lat lng.
           MetaParse E MetaUrl s = (Some (date, pano_id, lat, lng), tick s) \<and> truthy pano_id"
proof -
  from assms obtain jsonData date pano_id lat lng where
    "urlopen E (clock s) MetaUrl = Document jsonData"
    "parse_document jsonData = Some (date, pano_id, lat, lng)" "truthy pano_id"
    unfolding always_succeeds_def by blast
  then have "MetaParse E MetaUrl s = (Some (date, pano_id, lat, lng), tick s) \<and> truthy pano_id"
    by (simp add: MetaParse_def)
  then show ?thesis by blast
qed

lemma always_succeeds_fetch:
  assumes "always_succeeds E"
  shows "\<exists>im s1. GetStreetLL E G Lat Lon Head SaveLoc default_retries s = ((Some im, 1), s1) \<and>
           length (files s1) = Suc (length (files s))"
proof -
  let ?MetaUrl = "MetaUrl_of E G Lat Lon Head"
  let ?MyUrl = "MyUrl_of E G Lat Lon Head"
  from always_succeeds_MetaParse [OF assms, of ?MetaUrl s]
  obtain date pano_id lat lng where
    mp: "MetaParse E ?MetaUrl s = (Some (date, pano_id, lat, lng), tick s)" and tr: "truthy pano_id"
    by blast
  have saved: "urlretrieve E t u p = Saved" for t u p
    using assms unfolding always_succeeds_def by blast
  have r: "retry_loop E ?MyUrl ?MetaUrl Head SaveLoc (Suc n) s =
      ((Some (date, pano_id, lat, lng, filename_of E lat lng Head), 1),
       (tick s)\<lparr>clock := Suc (clock (tick s)),
                 files := files (tick s) @ [os_path_join SaveLoc (filename_of E lat lng Head)]\<rparr>)" for n
    using mp tr saved by (simp add: Let_def)
  have three: "nat default_retries = Suc (Suc (Suc 0))" by (simp add: default_retries_def)
  show ?thesis by (simp only: GetStreetLL_def three r) (simp add: tick_def)
qed

lemma always_succeeds_dispatch:
  assumes "always_succeeds E"
  shows "\<exists>s'. dispatch E G save_dir data_list images s = (images + int (length data_list), s') \<and>
           length (files s') = length (files s) + length data_list"
proof (induction data_list arbitrary: images s)
  case (Cons p data_list)
  obtain lat lon head where p: "p = (lat, lon, head)" by (cases p)
  from always_succeeds_fetch [OF assms, of G lat lon head save_dir s]
  obtain im s1 where f: "GetStreetLL E G lat lon head save_dir default_retries s = ((Some im, 1), s1)"
    and l: "length (files s1) = Suc (length (files s))"
    by blast
  from Cons [of "images + 1" "s1\<lparr>image_list := image_list s1 @ [im]\<rparr>"]
  obtain s' where
    "dispatch E G save_dir data_list (images + 1) (s1\<lparr>image_list := image_list s1 @ [im]\<rparr>)
       = (images + 1 + int (length data_list), s')"
    "length (files s') = length (files (s1\<lparr>image_list := image_list s1 @ [im]\<rparr>)) + length data_list"
    by blast
  with p f l show ?case by simp
qed simp

lemma length_spec_points_usable:
  "\<forall>road \<in> set roads. spec_first_vertex road \<noteq> None \<Longrightarrow>
   length (concat (map spec_points roads)) = 4 * length roads"
  by (induction roads) (auto simp: spec_points_def split: option.splits)

lemma generate_ll_usable:
  assumes "0 \<le> n2d" and "\<forall>road \<in> set g. spec_first_vertex road \<noteq> None"
  shows "\<exists>data_list s1. generate_ll E g n2d s = (Inr data_list, s1) \<and>
           length data_list = 4 * min (nat (n2d div 2)) (length g) \<and> files s1 = files s"
proof -
  let ?n = "n2d div 2"
  have n: "int_truediv n2d 2 = ?n" "0 \<le> ?n" using assms(1) by (simp_all add: int_truediv_nonneg)
  define roads where "roads = (if int (length g) > ?n then draw_rows (rnd E) (clock s) g (nat ?n) else g)"
  have "set roads \<subseteq> set g"
    using set_draw_rows [of "rnd E" "clock s" g "nat ?n"] by (auto simp: roads_def)
  then have usable: "\<forall>road \<in> set roads. spec_first_vertex road \<noteq> None" using assms(2) by blast
  then have "\<forall>road \<in> set roads. has_first_vertex road" by (simp add: has_first_vertex_def)
  then have loop: "roads_loop roads [] = Inr (concat (map spec_points roads))"
    using roads_loop_spec [of roads "[]"] by simp
  have len: "length roads = min (nat ?n) (length g)"
    using n(2) by (auto simp: roads_def length_draw_rows)
  have "generate_ll E g n2d s =
          (Inr (concat (map spec_points roads)),
           if int (length g) > ?n then s\<lparr>clock := clock s + nat ?n\<rparr> else s)"
    using n loop
    by (cases "int (length g) > ?n") (simp_all add: generate_ll_def gdf_sample_def roads_def Let_def)
  then show ?thesis using length_spec_points_usable [OF usable] len by auto
qed

lemma download_loop_always_succeeds:
  assumes "always_succeeds E" and "g \<noteq> []" and "\<forall>road \<in> set g. spec_first_vertex road \<noteq> None"
    and "0 < num_workers G"
  shows "0 \<le> m \<Longrightarrow> m \<le> target - 1 \<Longrightarrow>
         \<exists>s'. download_loop E G g target save_dir (4 * m) s = Some (Inr (4 * target - 4), s') \<and>
              length (files s') = length (files s) + nat (4 * (target - 1 - m))"
proof (induction "nat (target - 1 - m)" arbitrary: m s rule: less_induct)
  case less
  have budget: "int_truediv (4 * m) 4 = m" using less.prems(1) by (simp add: int_truediv_nonneg)
  have below: "4 * m < target * 4" using less.prems(2) by simp
  show ?case
  proof (cases "m = target - 1")
    case True
    then have "int_truediv (target - m) 2 = 0" by (simp add: int_truediv_def)
    then have "generate_ll E g (target - m) s = (Inr [], s)" by (rule generate_ll_no_roads)
    with below budget have "download_loop E G g target save_dir (4 * m) s = Some (Inr (4 * m), s)"
      by (subst download_loop.simps) simp
    with True show ?thesis by simp
  next
    case False
    with less.prems have two: "2 \<le> target - m" by simp
    from generate_ll_usable [OF _ assms(3), of "target - m" E s] two
    obtain data_list s1 where gen: "generate_ll E g (target - m) s = (Inr data_list, s1)"
      and len: "length data_list = 4 * min (nat ((target - m) div 2)) (length g)"
      and fs: "files s1 = files s"
      by auto
    define k where "k = min (nat ((target - m) div 2)) (length g)"
    have k1: "1 \<le> k" using two assms(2) by (cases g) (auto simp: k_def)
    have k2: "int k \<le> (target - m) div 2" using two by (simp add: k_def)
    then have k3: "m + int k \<le> target - 1" using two by linarith
    from len k1 have ne: "data_list \<noteq> []" by (auto simp: k_def)
    from always_succeeds_dispatch [OF assms(1), of G save_dir data_list "4 * m" s1]
    obtain s2 where d: "dispatch E G save_dir data_list (4 * m) s1 = (4 * m + int (length data_list), s2)"
      and fd: "length (files s2) = length (files s1) + length data_list"
      by blast
    have new: "4 * m + int (length data_list) = 4 * (m + int k)" using len by (simp add: k_def)
    have step: "download_loop E G g target save_dir (4 * m) s
                  = download_loop E G g target save_dir (4 * (m + int k)) s2"
      using below budget gen ne assms(4) d new by (subst download_loop.simps) simp
    have "nat (target - 1 - (m + int k)) < nat (target - 1 - m)" using k1 k3 by linarith
    from less.hyps [OF this, of s2] less.prems(1) k3
    obtain s' where r: "download_loop E G g target save_dir (4 * (m + int k)) s2
                         = Some (Inr (4 * target - 4), s')"
      and fr: "length (files s') = length (files s2) + nat (4 * (target - 1 - (m + int k)))"
      by auto
    have "length (files s') = length (files s) + nat (4 * (target - 1 - m))"
      using fr fd fs len k3 by (simp add: k_def) linarith
    with step r show ?thesis by simp
  qed
qed

lemma load_files: "files (snd (load_shapefile_for_country E country s)) = files s"
  by (auto simp: load_shapefile_for_country_def regions_loop_region_of load_region_def
        split: option.splits sum.splits)

lemma roads_loop_Inr:
  "roads_loop roads ll_list = Inr data_list \<Longrightarrow>
   data_list = ll_list @ concat (map spec_points roads)"
proof (induction roads arbitrary: ll_list)
  case (Cons road roads)
  show ?case
  proof (cases "has_first_vertex road")
    case True
    with Cons.prems have "roads_loop roads (ll_list @ spec_points road) = Inr data_list"
      by (simp add: road_points_spec)
    then have "data_list = (ll_list @ spec_points road) @ concat (map spec_points roads)"
      by (rule Cons.IH)
    then show ?thesis by simp
  next
    case False
    with Cons.prems show ?thesis by (simp add: road_points_raises)
  qed
qed simp

lemma generate_ll_Inr:
  assumes "generate_ll E g n2d s = (Inr data_list, s1)" and "0 \<le> n2d"
  shows "\<exists>roads. data_list = concat (map spec_points roads) \<and> int (length roads) \<le> n2d div 2"
proof -
  let ?n = "n2d div 2"
  have n: "int_truediv n2d 2 = ?n" "0 \<le> ?n" using assms(2) by (simp_all add: int_truediv_nonneg)
  define roads where "roads = (if int (length g) > ?n then draw_rows (rnd E) (clock s) g (nat ?n) else g)"
  have "roads_loop roads [] = Inr data_list"
    using assms(1) n
    by (cases "int (length g) > ?n") (simp_all add: generate_ll_def gdf_sample_def roads_def Let_def)
  then have "data_list = [] @ concat (map spec_points roads)" by (rule roads_loop_Inr)
  moreover have "int (length roads) \<le> ?n" using n(2) by (simp add: roads_def length_draw_rows)
  ultimately show ?thesis by auto
qed

lemma generate_ll_length:
  assumes "generate_ll E g n2d s = (Inr data_list, s1)" and "0 \<le> n2d"
  shows "int (length data_list) \<le> 4 * (n2d div 2)"
proof -
  from generate_ll_Inr [OF assms] obtain roads where
    r: "data_list = concat (map spec_points roads)" "int (length roads) \<le> n2d div 2"
    by blast
  have "length data_list \<le> 4 * length roads"
    using length_concat_spec_points [of roads] r(1) by simp
  then have "int (length data_list) \<le> 4 * int (length roads)" by linarith
  with r(2) show ?thesis by linarith
qed

lemma round_below_quota:
  fixes images target :: int
  assumes "0 \<le> images" and "images < target * 4"
    and "images' \<le> images + len" and "len \<le> 4 * ((target - images div 4) div 2)"
  shows "images' < target * 4"
  using assms by presburger

lemma download_loop_below_quota:
  assumes "download_loop E G g target save_dir images s = Some y"
  shows "\<forall>n s'. y = (Inr n, s') \<longrightarrow> 0 \<le> images \<longrightarrow> images < target * 4 \<longrightarrow> n < target * 4"
  using assms
proof (induction rule: download_loop.raw_induct [rotated -1, consumes 1, case_names step])
  case (step loop E G g target save_dir images s y)
  show ?case
  proof (intro allI impI)
    fix n s'
    assume y: "y = (Inr n, s')" and nonneg: "0 \<le> images" and below: "images < target * 4"
    obtain r s1 where gen: "generate_ll E g (target - images div 4) s = (r, s1)"
      by (metis surj_pair)
    have budget: "int_truediv images 4 = images div 4"
      using nonneg by (rule int_truediv_nonneg)
    show "n < target * 4"
    proof (cases r)
      case (Inl e)
      with step.hyps y below gen budget show ?thesis by simp
    next
      case (Inr data_list)
      show ?thesis
      proof (cases "data_list = []")
        case True
        with step.hyps y below gen budget Inr show ?thesis by simp
      next
        case False
        show ?thesis
        proof (cases "num_workers G \<le> 0")
          case True
          with step.hyps y below gen budget Inr False show ?thesis by simp
        next
          case workers: False
          obtain images' s2 where d: "dispatch E G save_dir data_list images s1 = (images', s2)"
            by (metis surj_pair)
          with step.hyps below gen budget Inr False workers
          have "loop E G g target save_dir images' s2 = Some y" by simp
          then have ih: "\<forall>n s'. y = (Inr n, s') \<longrightarrow> 0 \<le> images' \<longrightarrow> images' < target * 4
              \<longrightarrow> n < target * 4"
            by (rule step.IH)
          from d have b: "images \<le> images'" "images' \<le> images + int (length data_list)"
            using dispatch_bounds by blast+
          have "0 \<le> target - images div 4" using below by linarith
          with gen Inr have "int (length data_list) \<le> 4 * ((target - images div 4) div 2)"
            using generate_ll_length by blast
          with nonneg below b(2) have "images' < target * 4" by (rule round_below_quota)
          with ih y nonneg b(1) show ?thesis by force
        qed
      qed
    qed
  qed
qed

lemma mock_always_succeeds: "always_succeeds mock_env"
  unfolding always_succeeds_def
proof (intro conjI allI)
  fix t u
  have "urlopen mock_env t u = Document ok_document" by (simp add: mock_env_def)
  with mock_parse_document
  show "\<exists>jsonData date pano_id lat lng.
         urlopen mock_env t u = Document jsonData \<and>
         parse_document jsonData = Some (date, pano_id, lat, lng) \<and> truthy pano_id"
    by (intro exI [of _ ok_document] exI [of _ "JStr ''2021-06''"] exI [of _ "JStr ''abc''"]
          exI [of _ "JInt 48"] exI [of _ "JInt 2"]) simp
next
  fix t u p
  show "urlretrieve mock_env t u p = Saved" by (rule mock_urlretrieve)
qed

lemma mock_gdf_usable: "mock_gdf \<noteq> []" "\<forall>road \<in> set mock_gdf. spec_first_vertex road \<noteq> None"
  by (simp_all add: mock_gdf_def spec_first_vertex_def)

text \<open>
  Claim C1 does not hold of the code. With a provider that always succeeds, a dataset
  that has a road, all roads usable, and a target of at least 1, the driver returns
  \<open>4 * target - 4\<close> after that many downloads, each the write of a file: 36 for a
  target of 10. While the tally is \<open>4 * target - 4\<close> the budget of the next round is
  1, the sampler selects \<open>int(1 / 2) = 0\<close> roads, and the driver leaves the loop on the
  empty sequence. More generally, for a target of at least 1 no run returns a tally that
  has reached four times the target, whatever the provider and the dataset.
\<close>

theorem download_stops_short:
  "(1 \<le> target \<and> always_succeeds E \<and>
    load_shapefile_for_country E country s = (Inr g, s0) \<and> g \<noteq> [] \<and>
    (\<forall>road \<in> set g. spec_first_vertex road \<noteq> None) \<and> 0 < num_workers G \<longrightarrow>
      (\<exists>s'. download_images_from_country E G country target save_dir s
               = Some (Inr (4 * target - 4), s') \<and>
            length (files s') = length (files s) + nat (4 * target - 4))) \<and>
   (1 \<le> target \<and>
    download_images_from_country E G country target save_dir s = Some (Inr n, s') \<longrightarrow>
      n < 4 * target)"
proof (intro conjI impI)
  assume a: "1 \<le> target \<and> always_succeeds E \<and>
    load_shapefile_for_country E country s = (Inr g, s0) \<and> g \<noteq> [] \<and>
    (\<forall>road \<in> set g. spec_first_vertex road \<noteq> None) \<and> 0 < num_workers G"
  then have "\<exists>s'. download_loop E G g target save_dir (4 * 0) s0 = Some (Inr (4 * target - 4), s') \<and>
              length (files s') = length (files s0) + nat (4 * (target - 1 - 0))"
    by (intro download_loop_always_succeeds) simp_all
  moreover have "files s0 = files s" using a load_files [of E country s] by simp
  ultimately show "\<exists>s'. download_images_from_country E G country target save_dir s
               = Some (Inr (4 * target - 4), s') \<and>
            length (files s') = length (files s) + nat (4 * target - 4)"
    using a by (simp add: download_images_from_country_def algebra_simps)
next
  assume a: "1 \<le> target \<and>
    download_images_from_country E G country target save_dir s = Some (Inr n, s')"
  obtain r s0 where l: "load_shapefile_for_country E country s = (r, s0)" by (metis surj_pair)
  show "n < 4 * target"
  proof (cases r)
    case (Inl e)
    with a l show ?thesis by (simp add: download_images_from_country_def)
  next
    case (Inr g)
    with a l have "download_loop E G g target save_dir 0 s0 = Some (Inr n, s')"
      by (simp add: download_images_from_country_def)
    from download_loop_below_quota [OF this] a show ?thesis by simp
  qed
qed

theorem download_stops_short_witness:
  "(1::int) \<le> 10 \<and> always_succeeds mock_env \<and>
   load_shapefile_for_country mock_env ''France'' initial_state =
     (Inr mock_gdf,
      initial_state\<lparr>clock := 1,
        loads := [''./GRIP4/GRIP4_Region4_vector_shp/GRIP4_region4.shp''],
        gdf_cache := [''Region 4'' \<mapsto> mock_gdf]\<rparr>) \<and>
   mock_gdf \<noteq> [] \<and> list_all (\<lambda>road. spec_first_vertex road \<noteq> None) mock_gdf \<and>
   0 < num_workers (default_settings None) \<and>
   (\<exists>s'. download_images_from_country mock_env (default_settings None) ''France'' 10 ''./out''
            initial_state = Some (Inr 36, s') \<and>
         length (files s') = 36 \<and> (36::int) < 4 * 10)"
proof -
  have t: "(1::int) \<le> 10" and w: "0 < num_workers (default_settings None)"
    by (simp_all add: default_settings_def)
  note inst = download_stops_short [of 10 mock_env "''France''" initial_state mock_gdf _
      "default_settings None" "''./out''"]
  from inst t mock_always_succeeds mock_load_France mock_gdf_usable w
  obtain s' where r: "download_images_from_country mock_env (default_settings None) ''France'' 10
      ''./out'' initial_state = Some (Inr (4 * 10 - 4), s')"
    "length (files s') = length (files initial_state) + nat (4 * 10 - 4)"
    by blast
  then have "download_images_from_country mock_env (default_settings None) ''France'' 10
      ''./out'' initial_state = Some (Inr 36, s') \<and> length (files s') = 36 \<and> (36::int) < 4 * 10"
    by (simp add: initial_state_def)
  then show ?thesis
    using t mock_always_succeeds mock_load_France mock_gdf_usable w
    by (auto simp: list_all_iff)
qed

subsection \<open>The panorama setting\<close>

lemma headings_spec_points:
  "\<exists>k. headings (concat (map spec_points roads)) = concat (replicate k [2, 92, 182, 272])"
proof (induction roads)
  case Nil
  show ?case by (simp add: headings_def)
next
  case (Cons road roads)
  then obtain k where k: "headings (concat (map spec_points roads)) = concat (replicate k [2, 92, 182, 272])"
    by blast
  show ?case
  proof (cases "spec_first_vertex road")
    case None
    then have "spec_points road = []" by (simp add: spec_points_def)
    with k show ?thesis by auto
  next
    case (Some v)
    then have "headings (spec_points road) = [2, 92, 182, 272]"
      by (cases v) (simp add: spec_points_def headings_def)
    then have "headings (concat (map spec_points (road # roads)))
        = [2, 92, 182, 272] @ headings (concat (map spec_points roads))"
      by (simp add: headings_def)
    with k have "headings (concat (map spec_points (road # roads)))
        = concat (replicate (Suc k) [2, 92, 182, 272])"
      by simp
    then show ?thesis by blast
  qed
qed

lemma GetStreetLL_pano:
  "GetStreetLL E (G\<lparr>pano := b\<rparr>) Lat Lon Head SaveLoc retries s
     = GetStreetLL E G Lat Lon Head SaveLoc retries s"
  by (simp add: GetStreetLL_def MyUrl_of_def MetaUrl_of_def url_end_def str_key_def)

lemma dispatch_pano:
  "dispatch E (G\<lparr>pano := b\<rparr>) save_dir data_list images s = dispatch E G save_dir data_list images s"
  by (induction data_list arbitrary: images s) (auto simp: GetStreetLL_pano split: prod.splits)

lemma download_loop_pano_Some:
  assumes "download_loop E G g target save_dir images s = Some y"
  shows "\<forall>b. download_loop E (G\<lparr>pano := b\<rparr>) g target save_dir images s = Some y"
  using assms
proof (induction rule: download_loop.raw_induct [rotated -1, consumes 1, case_names step])
  case (step loop E G g target save_dir images s y)
  show ?case
  proof
    fix b
    obtain r s1 where gen: "generate_ll E g (target - int_truediv images 4) s = (r, s1)"
      by (metis surj_pair)
    show "download_loop E (G\<lparr>pano := b\<rparr>) g target save_dir images s = Some y"
    proof (cases "images < target * 4 \<and> (\<exists>data_list. r = Inr data_list \<and> data_list \<noteq> []) \<and>
                  \<not> num_workers G \<le> 0")
      case True
      then obtain data_list where r: "r = Inr data_list" "data_list \<noteq> []" by blast
      obtain images' s2 where d: "dispatch E G save_dir data_list images s1 = (images', s2)"
        by (metis surj_pair)
      with step.hyps True gen r have "loop E G g target save_dir images' s2 = Some y" by simp
      then have "\<forall>b. download_loop E (G\<lparr>pano := b\<rparr>) g target save_dir images' s2 = Some y"
        by (rule step.IH)
      with True gen r d show ?thesis
        by (subst download_loop.simps) (simp add: dispatch_pano)
    next
      case False
      with step.hyps gen show ?thesis
        by (subst download_loop.simps) (auto split: sum.splits if_splits)
    qed
  qed
qed

lemma download_loop_pano:
  "download_loop E (G\<lparr>pano := b\<rparr>) g target save_dir images s
     = download_loop E G g target save_dir images s"
proof (cases "download_loop E G g target save_dir images s")
  case (Some y)
  then show ?thesis using download_loop_pano_Some by simp
next
  case None
  show ?thesis
  proof (cases "download_loop E (G\<lparr>pano := b\<rparr>) g target save_dir images s")
    case (Some y)
    then have "download_loop E (G\<lparr>pano := b, pano := pano G\<rparr>) g target save_dir images s = Some y"
      using download_loop_pano_Some by blast
    with None show ?thesis by simp
  next
    case n: None
    with None show ?thesis by simp
  qed
qed

text \<open>
  Claim C10. The fetcher and the whole acquisition of a country return the same result
  and the same state (the files written, the ledger, the cache) under two settings that
  differ only in \<open>pano\<close>; the sampler takes no setting at all, and the headings of
  whatever it returns are the four headings 2, 92, 182, 272, repeated.
\<close>

theorem pano_is_never_read:
  "GetStreetLL E (G\<lparr>pano := b\<rparr>) Lat Lon Head SaveLoc retries s
     = GetStreetLL E G Lat Lon Head SaveLoc retries s \<and>
   download_images_from_country E (G\<lparr>pano := b\<rparr>) country target save_dir s
     = download_images_from_country E G country target save_dir s \<and>
   (generate_ll E g n2d s = (Inr data_list, s1) \<longrightarrow>
      (\<exists>k. headings data_list = concat (replicate k [2, 92, 182, 272])))"
proof (intro conjI impI)
  show "GetStreetLL E (G\<lparr>pano := b\<rparr>) Lat Lon Head SaveLoc retries s
     = GetStreetLL E G Lat Lon Head SaveLoc retries s"
    by (rule GetStreetLL_pano)
  show "download_images_from_country E (G\<lparr>pano := b\<rparr>) country target save_dir s
     = download_images_from_country E G country target save_dir s"
    by (simp add: download_images_from_country_def download_loop_pano split: prod.splits sum.splits)
next
  assume a: "generate_ll E g n2d s = (Inr data_list, s1)"
  then obtain roads where "roads_loop roads [] = Inr data_list"
    by (auto simp: generate_ll_def Let_def split: if_splits prod.splits sum.splits)
  then have "data_list = [] @ concat (map spec_points roads)" by (rule roads_loop_Inr)
  then show "\<exists>k. headings data_list = concat (replicate k [2, 92, 182, 272])"
    using headings_spec_points [of roads] by simp
qed

theorem pano_is_never_read_witness:
  "GetStreetLL mock_env ((default_settings None)\<lparr>pano := False\<rparr>) 10 1 92 ''./out'' 3 initial_state
     = GetStreetLL mock_env (default_settings None) 10 1 92 ''./out'' 3 initial_state \<and>
   download_images_from_country mock_env ((default_settings None)\<lparr>pano := False\<rparr>) ''France'' 10
       ''./out'' initial_state
     = download_images_from_country mock_env (default_settings None) ''France'' 10 ''./out''
         initial_state \<and>
   generate_ll mock_env mock_gdf 2 initial_state
     = (Inr (four_points 10 1), initial_state\<lparr>clock := 1\<rparr>) \<and>
   (\<exists>k. headings (four_points 10 1) = concat (replicate k [2, 92, 182, 272]))"
  using mock_generate_ll_2
    pano_is_never_read [where E = mock_env and G = "default_settings None" and b = False
      and Lat = 10 and Lon = 1 and Head = 92 and SaveLoc = "''./out''" and retries = 3
      and s = initial_state and country = "''France''" and target = 10 and save_dir = "''./out''"
      and g = mock_gdf and ?n2d = 2 and data_list = "four_points 10 1"
      and ?s1.0 = "initial_state\<lparr>clock := 1\<rparr>"]
  by blast

end
